theory Spec2Isabelle
  imports Complex_Main "HOL-Library.Sublist" "HOL-Library.Product_Lexorder"
begin

section \<open>Python values used by the three modules\<close>

text \<open>
  Strings are lists of characters. \<open>str.lower\<close> is modelled on the ASCII letters, the
  alphabet of every key, display name and test input of the repository; any other character
  is left as it is. \<open>s.replace(old, new)\<close> is only ever called with one-character
  arguments, where it replaces each occurrence of the character. The substring test
  \<open>a in b\<close> on strings is \<^const>\<open>sublist\<close>. Numbers stored in a workout log (weight, reps,
  sets) are Python integers.
\<close>

definition lower_char :: "char \<Rightarrow> char" where
  "lower_char c =
     (if (65::nat) \<le> of_char c \<and> of_char c \<le> (90::nat) then char_of (of_char c + (32::nat)) else c)"

definition lower :: "string \<Rightarrow> string" where
  "lower s = map lower_char s"

definition replace :: "char \<Rightarrow> char \<Rightarrow> string \<Rightarrow> string" where
  "replace old new s = map (\<lambda>c. if c = old then new else c) s"

text \<open>\<open>d.get(key, default)\<close> on a dictionary field that may be absent.\<close>

definition get_or :: "'a option \<Rightarrow> 'a \<Rightarrow> 'a" where
  "get_or field dflt = (case field of None \<Rightarrow> dflt | Some v \<Rightarrow> v)"

text \<open>\<open>str(n)\<close> for an integer, as an f-string prints it.\<close>

definition digit_char :: "nat \<Rightarrow> char" where
  "digit_char d = char_of (48 + d)"

fun str_nat :: "nat \<Rightarrow> string" where
  "str_nat n = (if n < 10 then [digit_char n] else str_nat (n div 10) @ [digit_char (n mod 10)])"

definition str_int :: "int \<Rightarrow> string" where
  "str_int i = (if i < 0 then CHR ''-'' # str_nat (nat (- i)) else str_nat (nat i))"

section \<open>Dates (the standard library's \<open>datetime\<close>)\<close>

text \<open>
  A naive \<open>datetime\<close> object with its seven fields. The log stores the ISO text of a
  \<open>datetime\<close> and every reader parses it back with \<open>fromisoformat\<close>; the model keeps the
  parsed value. The calendar arithmetic follows the standard library's pure-Python
  implementation (\<open>_ymd2ord\<close>, \<open>_ord2ymd\<close>, \<open>_isoweek1monday\<close>, \<open>isocalendar\<close>).
\<close>

record datetime =
  dt_year :: int
  dt_month :: int
  dt_day :: int
  dt_hour :: int
  dt_minute :: int
  dt_second :: int
  dt_microsecond :: int

definition is_leap :: "int \<Rightarrow> bool" where
  "is_leap year = (year mod 4 = 0 \<and> (year mod 100 \<noteq> 0 \<or> year mod 400 = 0))"

definition days_before_year :: "int \<Rightarrow> int" where
  "days_before_year year = (let y = year - 1 in y * 365 + y div 4 - y div 100 + y div 400)"

definition DAYS_IN_MONTH :: "int list" where
  "DAYS_IN_MONTH = [-1, 31, 28, 31, 30, 31, 30, 31, 31, 30, 31, 30, 31]"

definition DAYS_BEFORE_MONTH :: "int list" where
  "DAYS_BEFORE_MONTH = [-1, 0, 31, 59, 90, 120, 151, 181, 212, 243, 273, 304, 334]"

definition days_before_month :: "int \<Rightarrow> int \<Rightarrow> int" where
  "days_before_month year month =
     DAYS_BEFORE_MONTH ! nat month + (if month > 2 \<and> is_leap year then 1 else 0)"

definition ymd2ord :: "int \<Rightarrow> int \<Rightarrow> int \<Rightarrow> int" where
  "ymd2ord year month day = days_before_year year + days_before_month year month + day"

definition toordinal :: "datetime \<Rightarrow> int" where
  "toordinal d = ymd2ord (dt_year d) (dt_month d) (dt_day d)"

definition ord2ymd :: "int \<Rightarrow> int \<times> int \<times> int" where
  "ord2ymd n0 =
     (let n = n0 - 1;
          n400 = n div 146097; n = n mod 146097;
          year = n400 * 400 + 1;
          n100 = n div 36524; n = n mod 36524;
          n4 = n div 1461; n = n mod 1461;
          n1 = n div 365; n = n mod 365;
          year = year + n100 * 100 + n4 * 4 + n1
      in if n1 = 4 \<or> n100 = 4 then (year - 1, 12, 31)
         else
           let leapyear = (n1 = 3 \<and> (n4 \<noteq> 24 \<or> n100 = 3));
               month = (n + 50) div 32;
               preceding = DAYS_BEFORE_MONTH ! nat month + (if month > 2 \<and> leapyear then 1 else 0);
               month' = (if preceding > n then month - 1 else month);
               preceding' =
                 (if preceding > n
                  then preceding - (DAYS_IN_MONTH ! nat month' + (if month' = 2 \<and> leapyear then 1 else 0))
                  else preceding)
           in (year, month', n - preceding' + 1))"

definition isoweek1monday :: "int \<Rightarrow> int" where
  "isoweek1monday year =
     (let firstday = ymd2ord year 1 1;
          firstweekday = (firstday + 6) mod 7;
          week1monday = firstday - firstweekday
      in if firstweekday > 3 then week1monday + 7 else week1monday)"

text \<open>\<open>isocalendar()\<close> returns (ISO year, ISO week, ISO weekday).\<close>

definition isocalendar :: "datetime \<Rightarrow> int \<times> int \<times> int" where
  "isocalendar d =
     (let year = dt_year d;
          week1monday = isoweek1monday year;
          today = toordinal d;
          week = (today - week1monday) div 7;
          day = (today - week1monday) mod 7
      in if week < 0 then
           (let year' = year - 1; week1monday' = isoweek1monday year'
            in (year', (today - week1monday') div 7 + 1, (today - week1monday') mod 7 + 1))
         else if week \<ge> 52 \<and> today \<ge> isoweek1monday (year + 1) then (year + 1, 1, day + 1)
         else (year, week + 1, day + 1))"

text \<open>Naive datetimes compare field by field, most significant first.\<close>

definition dt_key :: "datetime \<Rightarrow> int list" where
  "dt_key d = [dt_year d, dt_month d, dt_day d, dt_hour d, dt_minute d, dt_second d, dt_microsecond d]"

fun key_le :: "int list \<Rightarrow> int list \<Rightarrow> bool" where
  "key_le [] ys = True"
| "key_le (x # xs) [] = False"
| "key_le (x # xs) (y # ys) = (x < y \<or> (x = y \<and> key_le xs ys))"

definition dt_ge :: "datetime \<Rightarrow> datetime \<Rightarrow> bool" where
  "dt_ge a b = key_le (dt_key b) (dt_key a)"

text \<open>
  \<open>d - timedelta(days=k)\<close>: the date moves by whole days and the time of day stays;
  \<open>None\<close> is the \<open>OverflowError\<close> raised when the result leaves the supported range.
\<close>

definition minus_days :: "datetime \<Rightarrow> int \<Rightarrow> datetime option" where
  "minus_days d k =
     (let days = toordinal d - k
      in if 0 < days \<and> days \<le> 3652059 then
           (case ord2ymd days of (y, m, dd) \<Rightarrow> Some (d\<lparr>dt_year := y, dt_month := m, dt_day := dd\<rparr>))
         else None)"

section \<open>Progress tracker\<close>

text \<open>
  One logged exercise is a dictionary whose keys may be absent: the name is stored under
  \<open>exercise\<close> or under \<open>name\<close>. A workout carries its date, its exercises (a key that may
  be absent in a stored file) and an optional note. The tracker holds the log in memory and
  rewrites the whole file \<open>workouts.json\<close> on every append; \<open>workouts_file\<close> is the content
  of that file, \<open>None\<close> while it does not exist.
\<close>

record logged_exercise =
  le_exercise :: "string option"
  le_name :: "string option"
  le_sets :: "int option"
  le_reps :: "int option"
  le_weight :: "int option"

record workout =
  w_date :: datetime
  w_exercises :: "logged_exercise list option"
  w_notes :: "string option"

record tracker =
  workouts :: "workout list"
  workouts_file :: "workout list option"

text \<open>\<open>exercise.copy()\<close> with the key \<open>date\<close> added: a fresh dictionary, the log entry is not touched.\<close>

record history_entry =
  he_exercise :: logged_exercise
  he_date :: datetime

definition load_workouts :: "workout list option \<Rightarrow> workout list" where
  "load_workouts file = (case file of Some ws \<Rightarrow> ws | None \<Rightarrow> [])"

definition ProgressTracker :: "workout list option \<Rightarrow> tracker" where
  "ProgressTracker file = \<lparr>workouts = load_workouts file, workouts_file = file\<rparr>"

definition save_workouts :: "tracker \<Rightarrow> tracker" where
  "save_workouts self = self\<lparr>workouts_file := Some (workouts self)\<rparr>"

text \<open>\<open>exercise.get('exercise', exercise.get('name', ''))\<close>\<close>

definition exercise_name_of :: "logged_exercise \<Rightarrow> string" where
  "exercise_name_of ex = get_or (le_exercise ex) (get_or (le_name ex) '''')"

definition get_exercise_history :: "tracker \<Rightarrow> string \<Rightarrow> history_entry list" where
  "get_exercise_history self exercise_name =
     concat (map (\<lambda>workout.
        map (\<lambda>exercise. \<lparr>he_exercise = exercise, he_date = w_date workout\<rparr>)
          (filter (\<lambda>exercise. lower (exercise_name_of exercise) = lower exercise_name)
             (get_or (w_exercises workout) [])))
       (workouts self))"

subsection \<open>Plateau detection\<close>

record plateau_result =
  plateau_detected :: bool
  pr_message :: "string option"
  sessions_analyzed :: "nat option"
  weight_range :: "int option"
  recent_weights :: "int list option"
  recommendations :: "string list option"

definition plateau_recommendations :: "string list" where
  "plateau_recommendations =
     [''Consider a deload week (reduce weight by 40%)'',
      ''Try changing rep range (if doing 8-12, try 4-6)'',
      ''Add a variation of this exercise'',
      ''Increase training frequency for this muscle'',
      ''Check your nutrition and sleep'',
      ''Try different tempo (slow negatives)'']"

text \<open>
  \<open>history[-4:]\<close> is taken only when the history has at least four entries, so \<open>max\<close> and
  \<open>min\<close> are applied to a list of four weights. The method only reads the tracker; it is
  given in state-passing form, returning the tracker as the call leaves it.
\<close>

definition detect_plateau :: "tracker \<Rightarrow> string \<Rightarrow> plateau_result \<times> tracker" where
  "detect_plateau self exercise_name =
     (let history = get_exercise_history self exercise_name
      in if length history < 4 then
           (\<lparr>plateau_detected = False,
             pr_message = Some ''Not enough data to detect plateau (need 4+ sessions)'',
             sessions_analyzed = None, weight_range = None, recent_weights = None,
             recommendations = None\<rparr>, self)
         else
           let recent = drop (length history - 4) history;
               weights = map (\<lambda>h. get_or (le_weight (he_exercise h)) 0) recent;
               weight_range = Max (set weights) - Min (set weights);
               is_plateau = (weight_range \<le> 5)
           in (\<lparr>plateau_detected = is_plateau,
                pr_message = (if is_plateau then None else Some ''No plateau detected. Keep progressing!''),
                sessions_analyzed = Some (length recent),
                weight_range = Some weight_range,
                recent_weights = Some weights,
                recommendations = (if is_plateau then Some plateau_recommendations else None)\<rparr>, self))"

subsection \<open>Logging a workout\<close>

text \<open>The two f-strings of \<open>_generate_workout_insights\<close> and its fallback message.\<close>

definition pr_text :: "string \<Rightarrow> int \<Rightarrow> int \<Rightarrow> string" where
  "pr_text exercise_name prev_weight curr_weight =
     ''PR on '' @ exercise_name @ ''! '' @ str_int prev_weight @ '' -> '' @ str_int curr_weight"

definition rep_pr_text :: "string \<Rightarrow> int \<Rightarrow> int \<Rightarrow> string" where
  "rep_pr_text exercise_name prev_reps curr_reps =
     ''Rep PR on '' @ exercise_name @ ''! '' @ str_int prev_reps @ '' -> '' @ str_int curr_reps
       @ '' reps''"

definition solid_workout :: string where
  "solid_workout = ''Solid workout! Keep pushing.''"

text \<open>
  One iteration of the loop of \<open>_generate_workout_insights\<close>: the messages it appends for
  one exercise of the new entry. \<open>history[-2]\<close> is read only when the history has at least
  two entries.
\<close>

definition exercise_insights :: "tracker \<Rightarrow> logged_exercise \<Rightarrow> string list" where
  "exercise_insights self exercise =
     (let exercise_name = exercise_name_of exercise;
          history = get_exercise_history self exercise_name
      in if length history \<ge> 2 then
           let prev = he_exercise (history ! (length history - 2));
               curr = exercise;
               prev_weight = get_or (le_weight prev) 0;
               curr_weight = get_or (le_weight curr) 0
           in (if curr_weight > prev_weight
               then [pr_text exercise_name prev_weight curr_weight]
               else [])
              @ (if curr_weight = prev_weight then
                   let prev_reps = get_or (le_reps prev) 0;
                       curr_reps = get_or (le_reps curr) 0
                   in if curr_reps > prev_reps
                      then [rep_pr_text exercise_name prev_reps curr_reps]
                      else []
                 else [])
         else [])"

definition generate_workout_insights :: "tracker \<Rightarrow> logged_exercise list \<Rightarrow> string list" where
  "generate_workout_insights self exercises =
     (let insights = fold (\<lambda>exercise insights. insights @ exercise_insights self exercise) exercises []
      in if insights = [] then insights @ [solid_workout] else insights)"

record log_result =
  lr_status :: string
  workout_number :: nat
  exercises_logged :: nat
  lr_insights :: "string list"

text \<open>\<open>now\<close> is the value of \<open>datetime.now()\<close> at the call.\<close>

definition log_workout ::
  "tracker \<Rightarrow> datetime \<Rightarrow> logged_exercise list \<Rightarrow> string option \<Rightarrow> log_result \<times> tracker" where
  "log_workout self now exercises notes =
     (let workout = \<lparr>w_date = now, w_exercises = Some exercises, w_notes = notes\<rparr>;
          self = self\<lparr>workouts := workouts self @ [workout]\<rparr>;
          self = save_workouts self;
          insights = generate_workout_insights self exercises
      in (\<lparr>lr_status = ''logged'', workout_number = length (workouts self),
           exercises_logged = length exercises, lr_insights = insights\<rparr>, self))"

subsection \<open>Reports\<close>

record report_entry =
  re_date :: datetime
  re_weight :: int
  re_reps :: int
  re_sets :: int

record exercise_data =
  total_sessions :: nat
  starting_weight :: int
  current_weight :: int
  max_weight :: int
  weight_gain :: int
  trend :: string
  ed_history :: "report_entry list"

datatype exercise_report = ReportError string | ExerciseData exercise_data

text \<open>The entries collected by the first loop of \<open>_get_exercise_report\<close>.\<close>

definition report_entries :: "string \<Rightarrow> workout list \<Rightarrow> report_entry list" where
  "report_entries exercise_name ws =
     concat (map (\<lambda>workout.
        map (\<lambda>ex. \<lparr>re_date = w_date workout, re_weight = get_or (le_weight ex) 0,
                   re_reps = get_or (le_reps ex) 0, re_sets = get_or (le_sets ex) 0\<rparr>)
          (filter (\<lambda>ex. lower (exercise_name_of ex) = lower exercise_name)
             (get_or (w_exercises workout) [])))
       ws)"

text \<open>
  \<open>[e['weight'] for e in entries if e['weight']]\<close> keeps the weights that are truthy, that
  is different from 0. \<open>weights[0]\<close>, \<open>weights[-1]\<close> and \<open>max(weights)\<close> are each guarded
  by a test that the list is not empty.
\<close>

definition get_exercise_report :: "string \<Rightarrow> workout list \<Rightarrow> exercise_report" where
  "get_exercise_report exercise_name ws =
     (let entries = report_entries exercise_name ws
      in if entries = [] then ReportError ''No data for this exercise''
         else
           let weights = map re_weight (filter (\<lambda>e. re_weight e \<noteq> 0) entries)
           in ExerciseData
                \<lparr>total_sessions = length entries,
                 starting_weight = (if weights \<noteq> [] then hd weights else 0),
                 current_weight = (if weights \<noteq> [] then last weights else 0),
                 max_weight = (if weights \<noteq> [] then Max (set weights) else 0),
                 weight_gain = (if length weights \<ge> 2 then last weights - hd weights else 0),
                 trend = (if length weights \<ge> 2 \<and> last weights > hd weights
                          then ''improving'' else ''stable''),
                 ed_history = entries\<rparr>)"

text \<open>
  The consistency score. Python computes the average gap with floating-point division; the
  model divides exactly, in the rationals. Dates are compared and subtracted as calendar
  days, here through their ordinals.
\<close>

definition calculate_consistency :: "workout list \<Rightarrow> rat" where
  "calculate_consistency ws =
     (if ws = [] then 0
      else if length ws < 2 then 100
      else
        let dates = sort (map (\<lambda>w. toordinal (w_date w)) ws);
            gaps = map (\<lambda>i. dates ! i - dates ! (i - 1)) [1..<length dates];
            avg_gap = of_int (sum_list gaps) / of_nat (length gaps)
        in if avg_gap \<le> 3 then 100
           else if avg_gap \<le> 5 then 80
           else if avg_gap \<le> 7 then 60
           else max 0 (100 - avg_gap * 5))"

text \<open>\<open>exercise_counts[name] += 1\<close> on a \<open>defaultdict(int)\<close>, which keeps insertion order.\<close>

fun count_exercise :: "(string \<times> nat) list \<Rightarrow> string \<Rightarrow> (string \<times> nat) list" where
  "count_exercise [] name = [(name, 1)]"
| "count_exercise ((k, c) # rest) name =
     (if k = name then (k, c + 1) # rest else (k, c) # count_exercise rest name)"

record summary_data =
  workouts_completed :: nat
  unique_exercises :: nat
  most_frequent :: "(string \<times> nat) list"
  consistency_score :: rat

datatype overall_summary = SummaryMessage string | Summary summary_data

text \<open>\<open>sorted(..., key=count, reverse=True)\<close> is a stable sort by descending count.\<close>

definition get_overall_summary :: "workout list \<Rightarrow> overall_summary" where
  "get_overall_summary ws =
     (if ws = [] then SummaryMessage ''No workouts in this period''
      else
        let exercise_counts =
              fold (\<lambda>workout counts.
                      fold (\<lambda>ex counts. count_exercise counts (exercise_name_of ex))
                        (get_or (w_exercises workout) []) counts)
                ws []
        in Summary
             \<lparr>workouts_completed = length ws,
              unique_exercises = length exercise_counts,
              most_frequent = take 5 (sort_key (\<lambda>x. - int (snd x)) exercise_counts),
              consistency_score = calculate_consistency ws\<rparr>)"

record report =
  rp_period :: string
  total_workouts :: nat
  rp_start_date :: datetime
  rp_end_date :: datetime
  rp_exercise :: "string option"
  rp_exercise_data :: "exercise_report option"
  rp_summary :: "overall_summary option"

definition period_days :: "(string \<times> int) list" where
  "period_days = [(''week'', 7), (''month'', 30), (''quarter'', 90), (''year'', 365)]"

text \<open>
  \<open>if exercise:\<close> holds for a string that is neither \<open>None\<close> nor empty. The result is
  \<open>None\<close> when the date subtraction raises; the tracker is returned as the call leaves it.
\<close>

definition get_report ::
  "tracker \<Rightarrow> datetime \<Rightarrow> string option \<Rightarrow> string \<Rightarrow> report option \<times> tracker" where
  "get_report self now exercise period =
     (let days = get_or (map_of period_days period) 30
      in case minus_days now days of
           None \<Rightarrow> (None, self)
         | Some start_date \<Rightarrow>
             let period_workouts = filter (\<lambda>w. dt_ge (w_date w) start_date) (workouts self);
                 rep = \<lparr>rp_period = period, total_workouts = length period_workouts,
                        rp_start_date = start_date, rp_end_date = now, rp_exercise = None,
                        rp_exercise_data = None, rp_summary = None\<rparr>
             in (case exercise of
                   Some (c # cs) \<Rightarrow>
                     (Some (rep\<lparr>rp_exercise := Some (c # cs),
                                rp_exercise_data := Some (get_exercise_report (c # cs) period_workouts)\<rparr>),
                      self)
                 | _ \<Rightarrow> (Some (rep\<lparr>rp_summary := Some (get_overall_summary period_workouts)\<rparr>), self)))"

subsection \<open>Consecutive weeks\<close>

text \<open>
  The loop of \<open>get_consecutive_weeks\<close> over \<open>sorted_weeks\<close>: \<open>prev\<close> and \<open>curr\<close> are
  neighbours in the list, and the loop stops at the first pair that is not consecutive.
\<close>

fun count_consecutive :: "(int \<times> int) list \<Rightarrow> nat \<Rightarrow> nat" where
  "count_consecutive ((prev_year, prev_week) # (curr_year, curr_week) # rest) consecutive =
     (if prev_year = curr_year \<and> prev_week - curr_week = 1
      then count_consecutive ((curr_year, curr_week) # rest) (consecutive + 1)
      else if prev_year - curr_year = 1 \<and> prev_week = 1 \<and> curr_week \<ge> 51
      then count_consecutive ((curr_year, curr_week) # rest) (consecutive + 1)
      else consecutive)"
| "count_consecutive sorted_weeks consecutive = consecutive"

text \<open>
  The pair stored for a workout: \<open>date.year\<close> and \<open>date.isocalendar()[1]\<close>. Pairs are
  ordered as Python orders tuples, first component first.
\<close>

definition week_of :: "datetime \<Rightarrow> int \<times> int" where
  "week_of date = (dt_year date, fst (snd (isocalendar date)))"

definition get_consecutive_weeks :: "tracker \<Rightarrow> nat \<times> tracker" where
  "get_consecutive_weeks self =
     (if workouts self = [] then (0, self)
      else
        let weeks = set (map (\<lambda>workout. week_of (w_date workout)) (workouts self));
            sorted_weeks = rev (sorted_list_of_set weeks)
        in (count_consecutive sorted_weeks 1, self))"

subsection \<open>Fatigue and personal records\<close>

text \<open>
  \<open>round(x, 1)\<close>. The argument is a multiple of 1/50 in exact arithmetic, so it never lies
  halfway between two tenths; the model rounds the exact rational.
\<close>

definition round1 :: "rat \<Rightarrow> rat" where
  "round1 x = of_int (round (x * 10)) / 10"

definition estimate_fatigue :: "tracker \<Rightarrow> datetime \<Rightarrow> rat option \<times> tracker" where
  "estimate_fatigue self now =
     (if workouts self = [] then (Some 1, self)
      else case minus_days now 14 of
             None \<Rightarrow> (None, self)
           | Some two_weeks_ago \<Rightarrow>
               let recent = filter (\<lambda>w. dt_ge (w_date w) two_weeks_ago) (workouts self)
               in if recent = [] then (Some 1, self)
                  else
                    let workout_count = length recent;
                        total_sets = sum_list (map (\<lambda>w. sum_list (map (\<lambda>ex. get_or (le_sets ex) 3)
                                        (get_or (w_exercises w) []))) recent);
                        workout_fatigue = min (of_nat workout_count / 2) (5::rat);
                        volume_fatigue = min (of_int total_sets / 50) (5::rat)
                    in (Some (round1 (workout_fatigue + volume_fatigue)), self))"

record personal_record =
  pr_weight :: int
  pr_reps :: int
  pr_date :: datetime

definition record_step ::
  "workout \<Rightarrow> logged_exercise \<Rightarrow> (string \<rightharpoonup> personal_record) \<Rightarrow> (string \<rightharpoonup> personal_record)" where
  "record_step workout ex records =
     (let name = exercise_name_of ex;
          weight = get_or (le_weight ex) 0
      in if (case records name of None \<Rightarrow> True | Some r \<Rightarrow> weight > pr_weight r)
         then records(name \<mapsto> \<lparr>pr_weight = weight, pr_reps = get_or (le_reps ex) 0,
                                 pr_date = w_date workout\<rparr>)
         else records)"

definition get_personal_records :: "tracker \<Rightarrow> (string \<rightharpoonup> personal_record) \<times> tracker" where
  "get_personal_records self =
     (fold (\<lambda>workout records. fold (record_step workout) (get_or (w_exercises workout) []) records)
        (workouts self) Map.empty,
      self)"

section \<open>Exercise library\<close>

text \<open>
  One record of the exercise database. Every record of the table has the same seven keys.
  The database is a dictionary; its iteration order, which the fuzzy match depends on, is
  the order of the table, so it is kept as a list of (key, record) pairs.
\<close>

record exercise_info =
  info_name :: string
  primary_muscles :: "string list"
  info_type :: string
  info_equipment :: "string list"
  instructions :: "string list"
  form_cues :: "string list"
  alternatives :: "string list"

definition rec_bench_press :: exercise_info where
  "rec_bench_press =
     \<lparr>info_name = ''Bench Press'',
      primary_muscles = [''chest'', ''triceps'', ''front_delts''],
      info_type = ''compound'',
      info_equipment = [''barbell'', ''bench''],
      instructions =
        [''Lie on bench with eyes under the bar'',
         ''Grip bar slightly wider than shoulder width'',
         ''Unrack and position bar over chest'',
         ''Lower bar to mid-chest with control'',
         ''Press bar up and slightly back'',
         ''Lock out arms at top''],
      form_cues =
        [''Keep shoulder blades pinched together'',
         ''Maintain arch in lower back'',
         ''Keep feet flat on floor'',
         ''Elbows at 45-75 degree angle'',
         ''Touch chest, don't bounce''],
      alternatives =
        [''Dumbbell Bench Press'',
         ''Push-ups'',
         ''Machine Chest Press'',
         ''Floor Press'']\<rparr>"

definition rec_incline_dumbbell_press :: exercise_info where
  "rec_incline_dumbbell_press =
     \<lparr>info_name = ''Incline Dumbbell Press'',
      primary_muscles = [''upper_chest'', ''front_delts'', ''triceps''],
      info_type = ''compound'',
      info_equipment = [''dumbbells'', ''incline_bench''],
      instructions =
        [''Set bench to 30-45 degree incline'',
         ''Sit with dumbbells on thighs'',
         ''Kick dumbbells up as you lie back'',
         ''Press dumbbells up and together'',
         ''Lower with control to chest level'',
         ''Repeat for desired reps''],
      form_cues =
        [''Keep back flat against bench'',
         ''Don't let dumbbells drift too far apart'',
         ''Control the negative portion'',
         ''Full range of motion''],
      alternatives =
        [''Incline Barbell Press'',
         ''Low-to-High Cable Fly'',
         ''Incline Push-ups'']\<rparr>"

definition rec_push_ups :: exercise_info where
  "rec_push_ups =
     \<lparr>info_name = ''Push-ups'',
      primary_muscles = [''chest'', ''triceps'', ''front_delts''],
      info_type = ''compound'',
      info_equipment = [''bodyweight''],
      instructions =
        [''Start in plank position, hands shoulder-width apart'',
         ''Keep body in straight line from head to heels'',
         ''Lower chest toward floor'',
         ''Push back up to starting position'',
         ''Maintain core engagement throughout''],
      form_cues =
        [''Don't let hips sag or pike up'',
         ''Elbows at 45 degree angle'',
         ''Full lockout at top'',
         ''Chest touches floor at bottom''],
      alternatives =
        [''Knee Push-ups'',
         ''Incline Push-ups'',
         ''Diamond Push-ups'',
         ''Wide Push-ups'']\<rparr>"

definition rec_barbell_row :: exercise_info where
  "rec_barbell_row =
     \<lparr>info_name = ''Barbell Row'',
      primary_muscles = [''lats'', ''rhomboids'', ''rear_delts'', ''biceps''],
      info_type = ''compound'',
      info_equipment = [''barbell''],
      instructions =
        [''Stand with feet shoulder-width apart'',
         ''Hinge at hips, back flat, chest up'',
         ''Grip bar slightly wider than shoulder width'',
         ''Pull bar to lower chest/upper abs'',
         ''Squeeze shoulder blades at top'',
         ''Lower with control''],
      form_cues =
        [''Keep back flat, don't round'',
         ''Lead with elbows'',
         ''Don't use momentum'',
         ''Torso angle ~45 degrees''],
      alternatives =
        [''Dumbbell Row'',
         ''Cable Row'',
         ''T-Bar Row'',
         ''Chest Supported Row'']\<rparr>"

definition rec_pull_ups :: exercise_info where
  "rec_pull_ups =
     \<lparr>info_name = ''Pull-ups'',
      primary_muscles = [''lats'', ''biceps'', ''rear_delts''],
      info_type = ''compound'',
      info_equipment = [''pull_up_bar''],
      instructions =
        [''Grip bar slightly wider than shoulder width'',
         ''Hang with arms fully extended'',
         ''Pull yourself up until chin clears bar'',
         ''Lower with control to full extension'',
         ''Avoid swinging or kipping''],
      form_cues =
        [''Initiate with lats, not arms'',
         ''Keep core engaged'',
         ''Shoulders down and back'',
         ''Full range of motion''],
      alternatives =
        [''Lat Pulldown'',
         ''Assisted Pull-ups'',
         ''Negative Pull-ups'',
         ''Inverted Rows'']\<rparr>"

definition rec_lat_pulldown :: exercise_info where
  "rec_lat_pulldown =
     \<lparr>info_name = ''Lat Pulldown'',
      primary_muscles = [''lats'', ''biceps'', ''rear_delts''],
      info_type = ''compound'',
      info_equipment = [''cable_machine''],
      instructions =
        [''Sit with thighs secured under pads'',
         ''Grip bar wider than shoulder width'',
         ''Pull bar down to upper chest'',
         ''Squeeze lats at bottom'',
         ''Control the weight back up''],
      form_cues =
        [''Don't lean back excessively'',
         ''Pull elbows down and back'',
         ''Keep chest up'',
         ''Full stretch at top''],
      alternatives =
        [''Pull-ups'',
         ''Close Grip Pulldown'',
         ''Straight Arm Pulldown'']\<rparr>"

definition rec_squat :: exercise_info where
  "rec_squat =
     \<lparr>info_name = ''Squat'',
      primary_muscles = [''quads'', ''glutes'', ''hamstrings'', ''core''],
      info_type = ''compound'',
      info_equipment = [''barbell'', ''squat_rack''],
      instructions =
        [''Position bar on upper back (high bar) or rear delts (low bar)'',
         ''Unrack and step back, feet shoulder-width apart'',
         ''Brace core and initiate by pushing hips back'',
         ''Descend until hip crease below knee'',
         ''Drive through feet to stand'',
         ''Lock out hips and knees at top''],
      form_cues =
        [''Keep chest up and back flat'',
         ''Knees track over toes'',
         ''Weight in mid-foot/heels'',
         ''Don't let knees cave in'',
         ''Breathe and brace each rep''],
      alternatives =
        [''Goblet Squat'',
         ''Front Squat'',
         ''Leg Press'',
         ''Bulgarian Split Squat'',
         ''Box Squat'']\<rparr>"

definition rec_deadlift :: exercise_info where
  "rec_deadlift =
     \<lparr>info_name = ''Deadlift'',
      primary_muscles = [''hamstrings'', ''glutes'', ''lower_back'', ''traps''],
      info_type = ''compound'',
      info_equipment = [''barbell''],
      instructions =
        [''Stand with feet hip-width, bar over mid-foot'',
         ''Hinge and grip bar just outside legs'',
         ''Drop hips, chest up, back flat'',
         ''Drive through floor, keeping bar close'',
         ''Lock out hips and knees together'',
         ''Reverse the movement to lower''],
      form_cues =
        [''Bar stays close to body entire lift'',
         ''Don't round lower back'',
         ''Push floor away with legs'',
         ''Lock out by squeezing glutes'',
         ''Don't hyperextend at top''],
      alternatives =
        [''Romanian Deadlift'',
         ''Trap Bar Deadlift'',
         ''Sumo Deadlift'',
         ''Hip Thrust'']\<rparr>"

definition rec_romanian_deadlift :: exercise_info where
  "rec_romanian_deadlift =
     \<lparr>info_name = ''Romanian Deadlift'',
      primary_muscles = [''hamstrings'', ''glutes'', ''lower_back''],
      info_type = ''compound'',
      info_equipment = [''barbell'', ''dumbbells''],
      instructions =
        [''Stand with feet hip-width, holding bar'',
         ''Push hips back while keeping knees slightly bent'',
         ''Lower bar along thighs until hamstring stretch'',
         ''Keep back flat throughout'',
         ''Drive hips forward to return to start''],
      form_cues =
        [''Hinge at hips, not waist'',
         ''Bar stays close to legs'',
         ''Feel stretch in hamstrings'',
         ''Don't round back'',
         ''Squeeze glutes at top''],
      alternatives =
        [''Stiff Leg Deadlift'',
         ''Single Leg RDL'',
         ''Good Morning'',
         ''Cable Pull Through'']\<rparr>"

definition rec_leg_press :: exercise_info where
  "rec_leg_press =
     \<lparr>info_name = ''Leg Press'',
      primary_muscles = [''quads'', ''glutes'', ''hamstrings''],
      info_type = ''compound'',
      info_equipment = [''leg_press_machine''],
      instructions =
        [''Sit in machine with back flat against pad'',
         ''Place feet shoulder-width on platform'',
         ''Release safety and lower weight'',
         ''Lower until knees at 90 degrees'',
         ''Press through feet to extend legs'',
         ''Don't lock knees completely''],
      form_cues =
        [''Keep lower back pressed into pad'',
         ''Don't let knees cave in'',
         ''Control the negative'',
         ''Full range of motion''],
      alternatives =
        [''Squat'',
         ''Hack Squat'',
         ''Bulgarian Split Squat'']\<rparr>"

definition rec_overhead_press :: exercise_info where
  "rec_overhead_press =
     \<lparr>info_name = ''Overhead Press'',
      primary_muscles = [''front_delts'', ''side_delts'', ''triceps''],
      info_type = ''compound'',
      info_equipment = [''barbell''],
      instructions =
        [''Grip bar just outside shoulder width'',
         ''Start with bar at shoulder level'',
         ''Brace core and press bar overhead'',
         ''Lock out arms at top'',
         ''Lower bar with control to shoulders''],
      form_cues =
        [''Keep core tight, don't lean back'',
         ''Press bar in straight line'',
         ''Move head back slightly as bar passes'',
         ''Full lockout at top''],
      alternatives =
        [''Dumbbell Shoulder Press'',
         ''Arnold Press'',
         ''Machine Shoulder Press'',
         ''Landmine Press'']\<rparr>"

definition rec_lateral_raise :: exercise_info where
  "rec_lateral_raise =
     \<lparr>info_name = ''Lateral Raise'',
      primary_muscles = [''side_delts''],
      info_type = ''isolation'',
      info_equipment = [''dumbbells''],
      instructions =
        [''Stand with dumbbells at sides'',
         ''Slight bend in elbows'',
         ''Raise arms out to sides until shoulder height'',
         ''Pause briefly at top'',
         ''Lower with control''],
      form_cues =
        [''Lead with elbows, not hands'',
         ''Don't swing or use momentum'',
         ''Slight forward lean okay'',
         ''Pinkies up at top optional''],
      alternatives =
        [''Cable Lateral Raise'',
         ''Machine Lateral Raise'',
         ''Leaning Lateral Raise'']\<rparr>"

definition rec_bicep_curl :: exercise_info where
  "rec_bicep_curl =
     \<lparr>info_name = ''Bicep Curl'',
      primary_muscles = [''biceps''],
      info_type = ''isolation'',
      info_equipment = [''dumbbells'', ''barbell''],
      instructions =
        [''Stand with arms at sides, palms forward'',
         ''Keep elbows at sides throughout'',
         ''Curl weight up toward shoulders'',
         ''Squeeze biceps at top'',
         ''Lower with control''],
      form_cues =
        [''Don't swing body'',
         ''Keep elbows stationary'',
         ''Full range of motion'',
         ''Control the negative''],
      alternatives =
        [''Hammer Curl'',
         ''Preacher Curl'',
         ''Cable Curl'',
         ''Incline Curl'']\<rparr>"

definition rec_tricep_pushdown :: exercise_info where
  "rec_tricep_pushdown =
     \<lparr>info_name = ''Tricep Pushdown'',
      primary_muscles = [''triceps''],
      info_type = ''isolation'',
      info_equipment = [''cable_machine''],
      instructions =
        [''Stand facing cable machine'',
         ''Grip rope or bar attachment'',
         ''Keep elbows at sides'',
         ''Push down until arms fully extended'',
         ''Squeeze triceps at bottom'',
         ''Control the return''],
      form_cues =
        [''Don't let elbows flare'',
         ''Keep torso upright'',
         ''Full extension at bottom'',
         ''Don't use momentum''],
      alternatives =
        [''Skull Crushers'',
         ''Overhead Extension'',
         ''Dips'',
         ''Close Grip Bench'']\<rparr>"

definition rec_plank :: exercise_info where
  "rec_plank =
     \<lparr>info_name = ''Plank'',
      primary_muscles = [''core'', ''shoulders''],
      info_type = ''core'',
      info_equipment = [''bodyweight''],
      instructions =
        [''Start in push-up position on forearms'',
         ''Keep body in straight line'',
         ''Engage core and glutes'',
         ''Hold position for prescribed time'',
         ''Breathe normally throughout''],
      form_cues =
        [''Don't let hips sag or pike'',
         ''Keep neck neutral'',
         ''Squeeze everything tight'',
         ''Quality over duration''],
      alternatives =
        [''Side Plank'',
         ''Dead Bug'',
         ''Bird Dog'',
         ''Hollow Hold'']\<rparr>"

definition rec_face_pulls :: exercise_info where
  "rec_face_pulls =
     \<lparr>info_name = ''Face Pulls'',
      primary_muscles = [''rear_delts'', ''rhomboids'', ''external_rotators''],
      info_type = ''isolation'',
      info_equipment = [''cable_machine'', ''rope''],
      instructions =
        [''Set cable at face height'',
         ''Grip rope with thumbs pointing back'',
         ''Pull toward face, separating hands'',
         ''Externally rotate at end of movement'',
         ''Squeeze shoulder blades together'',
         ''Control return''],
      form_cues =
        [''Lead with elbows high'',
         ''Pull apart, not just back'',
         ''Keep chest up'',
         ''Don't lean back excessively''],
      alternatives =
        [''Reverse Fly'',
         ''Band Pull Aparts'',
         ''Rear Delt Fly Machine'']\<rparr>"

definition rec_calf_raises :: exercise_info where
  "rec_calf_raises =
     \<lparr>info_name = ''Calf Raises'',
      primary_muscles = [''calves''],
      info_type = ''isolation'',
      info_equipment = [''calf_machine'', ''dumbbells''],
      instructions =
        [''Position balls of feet on edge'',
         ''Lower heels for full stretch'',
         ''Push up onto toes as high as possible'',
         ''Pause and squeeze at top'',
         ''Lower with control''],
      form_cues =
        [''Full range of motion'',
         ''Don't bounce at bottom'',
         ''Pause at top'',
         ''Straight knees for gastrocnemius''],
      alternatives =
        [''Seated Calf Raise'',
         ''Donkey Calf Raise'',
         ''Single Leg Calf Raise'']\<rparr>"

definition rec_leg_curl :: exercise_info where
  "rec_leg_curl =
     \<lparr>info_name = ''Leg Curl'',
      primary_muscles = [''hamstrings''],
      info_type = ''isolation'',
      info_equipment = [''leg_curl_machine''],
      instructions =
        [''Lie face down or sit in machine'',
         ''Position pad above heels'',
         ''Curl legs toward glutes'',
         ''Squeeze hamstrings at top'',
         ''Lower with control''],
      form_cues =
        [''Don't lift hips off pad'',
         ''Full range of motion'',
         ''Control the negative'',
         ''Point toes for extra contraction''],
      alternatives =
        [''Nordic Curl'',
         ''Swiss Ball Curl'',
         ''Slider Curl'',
         ''Romanian Deadlift'']\<rparr>"

definition build_exercise_database :: "(string \<times> exercise_info) list" where
  "build_exercise_database =
     [(''bench_press'', rec_bench_press),
      (''incline_dumbbell_press'', rec_incline_dumbbell_press),
      (''push_ups'', rec_push_ups),
      (''barbell_row'', rec_barbell_row),
      (''pull_ups'', rec_pull_ups),
      (''lat_pulldown'', rec_lat_pulldown),
      (''squat'', rec_squat),
      (''deadlift'', rec_deadlift),
      (''romanian_deadlift'', rec_romanian_deadlift),
      (''leg_press'', rec_leg_press),
      (''overhead_press'', rec_overhead_press),
      (''lateral_raise'', rec_lateral_raise),
      (''bicep_curl'', rec_bicep_curl),
      (''tricep_pushdown'', rec_tricep_pushdown),
      (''plank'', rec_plank),
      (''face_pulls'', rec_face_pulls),
      (''calf_raises'', rec_calf_raises),
      (''leg_curl'', rec_leg_curl)]"

record exercise_library =
  exercises :: "(string \<times> exercise_info) list"

definition ExerciseLibrary :: exercise_library where
  "ExerciseLibrary = \<lparr>exercises = build_exercise_database\<rparr>"

text \<open>
  The result of \<open>get_exercise\<close>: a record of the database, or the dictionary
  \<open>{'error': message}\<close>.
\<close>

datatype lookup = Found exercise_info | NotFound string

text \<open>\<open>name.lower().replace(' ', '_').replace('-', '_')\<close>\<close>

definition normalized_name :: "string \<Rightarrow> string" where
  "normalized_name name = replace CHR ''-'' CHR ''_'' (replace CHR '' '' CHR ''_'' (lower name))"

definition get_exercise :: "exercise_library \<Rightarrow> string \<Rightarrow> lookup" where
  "get_exercise self name =
     (let normalized = normalized_name name
      in case map_of (exercises self) normalized of
           Some exercise \<Rightarrow> Found exercise
         | None \<Rightarrow>
             (case find (\<lambda>(key, exercise). sublist normalized key \<or> sublist key normalized)
                     (exercises self) of
                Some (key, exercise) \<Rightarrow> Found exercise
              | None \<Rightarrow> NotFound (''Exercise \"'' @ name @ ''\" not found in library'')))"

definition equipment_words :: "string list" where
  "equipment_words = [''dumbbell'', ''bodyweight'', ''band'']"

definition get_alternatives :: "exercise_library \<Rightarrow> string \<Rightarrow> string \<Rightarrow> string list" where
  "get_alternatives self exercise_name reason =
     (case get_exercise self exercise_name of
        NotFound msg \<Rightarrow> []
      | Found exercise \<Rightarrow>
          if reason = ''equipment''
          then filter (\<lambda>alt. list_ex (\<lambda>eq. sublist eq (lower alt)) equipment_words)
                 (alternatives exercise)
          else alternatives exercise)"

definition get_exercises_by_muscle :: "exercise_library \<Rightarrow> string \<Rightarrow> (string \<times> string) list" where
  "get_exercises_by_muscle self muscle =
     map (\<lambda>(name, exercise). (info_name exercise, info_type exercise))
       (filter (\<lambda>(name, exercise). lower muscle \<in> set (map lower (primary_muscles exercise)))
          (exercises self))"

section \<open>Workout generator\<close>

subsection \<open>Objects and references\<close>

text \<open>
  The generator keeps its templates as nested dictionaries and lists, and
  \<open>generate_plan\<close> works on them through references. The model therefore has a store of
  objects: an address is an index into the store, and a dictionary or list that holds
  another one holds its address. An exercise slot of a template has the keys \<open>name\<close>,
  \<open>type\<close> and \<open>muscle\<close>; the keys \<open>sets\<close>, \<open>reps\<close> and \<open>rest\<close> are absent until a rep
  scheme is written into the slot.
\<close>

type_synonym addr = nat

record exercise =
  ex_name :: string
  ex_type :: string
  ex_muscle :: string
  ex_sets :: "int option"
  ex_reps :: "string option"
  ex_rest :: "string option"

record session =
  session_name :: string
  session_exercises :: addr

record template =
  template_name :: string
  days_per_week :: int
  template_sessions :: addr

datatype obj =
  ExerciseObj exercise
| SessionObj session
| TemplateObj template
| ListObj "addr list"

type_synonym heap = "obj list"

text \<open>
  Reading through a reference. \<open>None\<close> stands for the failure of a read that finds no
  object, or an object of another kind, at the address.
\<close>

definition deref :: "heap \<Rightarrow> addr \<Rightarrow> obj option" where
  "deref h a = (if a < length h then Some (h ! a) else None)"

definition exercise_at :: "heap \<Rightarrow> addr \<Rightarrow> exercise option" where
  "exercise_at h a = (case deref h a of Some (ExerciseObj e) \<Rightarrow> Some e | _ \<Rightarrow> None)"

definition session_at :: "heap \<Rightarrow> addr \<Rightarrow> session option" where
  "session_at h a = (case deref h a of Some (SessionObj s) \<Rightarrow> Some s | _ \<Rightarrow> None)"

definition template_at :: "heap \<Rightarrow> addr \<Rightarrow> template option" where
  "template_at h a = (case deref h a of Some (TemplateObj t) \<Rightarrow> Some t | _ \<Rightarrow> None)"

definition list_at :: "heap \<Rightarrow> addr \<Rightarrow> addr list option" where
  "list_at h a = (case deref h a of Some (ListObj l) \<Rightarrow> Some l | _ \<Rightarrow> None)"

text \<open>A new object gets the next free address.\<close>

definition alloc :: "heap \<Rightarrow> obj \<Rightarrow> addr \<times> heap" where
  "alloc h ob = (length h, h @ [ob])"

text \<open>\<open>template['sessions']\<close> and \<open>session['exercises']\<close>, read down to the list.\<close>

definition sessions_of :: "heap \<Rightarrow> addr \<Rightarrow> addr list option" where
  "sessions_of h template =
     (case template_at h template of None \<Rightarrow> None | Some t \<Rightarrow> list_at h (template_sessions t))"

definition exercises_of :: "heap \<Rightarrow> addr \<Rightarrow> addr list option" where
  "exercises_of h session =
     (case session_at h session of None \<Rightarrow> None | Some s \<Rightarrow> list_at h (session_exercises s))"

text \<open>
  A \<open>for\<close> loop over a list whose body works on the store; the loop stops with the
  failure of its body. None of the loops of the generator changes the list it runs over.
\<close>

fun for_each :: "('a \<Rightarrow> heap \<Rightarrow> heap option) \<Rightarrow> 'a list \<Rightarrow> heap \<Rightarrow> heap option" where
  "for_each body [] h = Some h"
| "for_each body (x # xs) h = (case body x h of None \<Rightarrow> None | Some h' \<Rightarrow> for_each body xs h')"

subsection \<open>The templates\<close>

definition full_body_sessions :: "(string \<times> (string \<times> string \<times> string) list) list" where
  "full_body_sessions =
     [(''Full Body A'',
        [(''Squat'', ''compound'', ''legs''),
         (''Bench Press'', ''compound'', ''chest''),
         (''Barbell Row'', ''compound'', ''back''),
         (''Overhead Press'', ''compound'', ''shoulders''),
         (''Plank'', ''core'', ''core'')]),
      (''Full Body B'',
        [(''Deadlift'', ''compound'', ''legs''),
         (''Incline Press'', ''compound'', ''chest''),
         (''Pull-ups'', ''compound'', ''back''),
         (''Dumbbell Lunges'', ''compound'', ''legs''),
         (''Face Pulls'', ''isolation'', ''shoulders'')])]"

definition upper_lower_sessions :: "(string \<times> (string \<times> string \<times> string) list) list" where
  "upper_lower_sessions =
     [(''Upper A'',
        [(''Bench Press'', ''compound'', ''chest''),
         (''Barbell Row'', ''compound'', ''back''),
         (''Overhead Press'', ''compound'', ''shoulders''),
         (''Pull-ups'', ''compound'', ''back''),
         (''Face Pulls'', ''isolation'', ''shoulders''),
         (''Tricep Pushdown'', ''isolation'', ''triceps''),
         (''Bicep Curl'', ''isolation'', ''biceps'')]),
      (''Lower A'',
        [(''Squat'', ''compound'', ''quads''),
         (''Romanian Deadlift'', ''compound'', ''hamstrings''),
         (''Leg Press'', ''compound'', ''quads''),
         (''Leg Curl'', ''isolation'', ''hamstrings''),
         (''Calf Raises'', ''isolation'', ''calves'')]),
      (''Upper B'',
        [(''Incline Dumbbell Press'', ''compound'', ''chest''),
         (''Cable Row'', ''compound'', ''back''),
         (''Dumbbell Shoulder Press'', ''compound'', ''shoulders''),
         (''Lat Pulldown'', ''compound'', ''back''),
         (''Lateral Raises'', ''isolation'', ''shoulders''),
         (''Skull Crushers'', ''isolation'', ''triceps''),
         (''Hammer Curl'', ''isolation'', ''biceps'')]),
      (''Lower B'',
        [(''Deadlift'', ''compound'', ''posterior''),
         (''Front Squat'', ''compound'', ''quads''),
         (''Walking Lunges'', ''compound'', ''legs''),
         (''Leg Extension'', ''isolation'', ''quads''),
         (''Seated Calf Raise'', ''isolation'', ''calves'')])]"

definition ppl_sessions :: "(string \<times> (string \<times> string \<times> string) list) list" where
  "ppl_sessions =
     [(''Push'',
        [(''Bench Press'', ''compound'', ''chest''),
         (''Incline Dumbbell Press'', ''compound'', ''chest''),
         (''Overhead Press'', ''compound'', ''shoulders''),
         (''Cable Fly'', ''isolation'', ''chest''),
         (''Lateral Raises'', ''isolation'', ''shoulders''),
         (''Tricep Pushdown'', ''isolation'', ''triceps''),
         (''Overhead Tricep Extension'', ''isolation'', ''triceps'')]),
      (''Pull'',
        [(''Barbell Row'', ''compound'', ''back''),
         (''Pull-ups'', ''compound'', ''back''),
         (''Seated Cable Row'', ''compound'', ''back''),
         (''Face Pulls'', ''isolation'', ''rear_delts''),
         (''Barbell Curl'', ''isolation'', ''biceps''),
         (''Hammer Curl'', ''isolation'', ''biceps'')]),
      (''Legs'',
        [(''Squat'', ''compound'', ''quads''),
         (''Romanian Deadlift'', ''compound'', ''hamstrings''),
         (''Leg Press'', ''compound'', ''quads''),
         (''Leg Curl'', ''isolation'', ''hamstrings''),
         (''Leg Extension'', ''isolation'', ''quads''),
         (''Calf Raises'', ''isolation'', ''calves'')])]"

text \<open>
  Building a template evaluates its dictionary display: every exercise dictionary, the
  list of a session's exercises, the session dictionary, the list of sessions and the
  template dictionary are new objects.
\<close>

fun alloc_exercises :: "heap \<Rightarrow> (string \<times> string \<times> string) list \<Rightarrow> addr list \<times> heap" where
  "alloc_exercises h [] = ([], h)"
| "alloc_exercises h ((name, type, muscle) # rest) =
     (let (e, h1) = alloc h (ExerciseObj \<lparr>ex_name = name, ex_type = type, ex_muscle = muscle,
                                         ex_sets = None, ex_reps = None, ex_rest = None\<rparr>);
          (es, h2) = alloc_exercises h1 rest
      in (e # es, h2))"

fun alloc_sessions ::
  "heap \<Rightarrow> (string \<times> (string \<times> string \<times> string) list) list \<Rightarrow> addr list \<times> heap" where
  "alloc_sessions h [] = ([], h)"
| "alloc_sessions h ((name, exs) # rest) =
     (let (es, h1) = alloc_exercises h exs;
          (l, h2) = alloc h1 (ListObj es);
          (s, h3) = alloc h2 (SessionObj \<lparr>session_name = name, session_exercises = l\<rparr>);
          (ss, h4) = alloc_sessions h3 rest
      in (s # ss, h4))"

definition alloc_template ::
  "heap \<Rightarrow> string \<Rightarrow> int \<Rightarrow> (string \<times> (string \<times> string \<times> string) list) list \<Rightarrow> addr \<times> heap" where
  "alloc_template h name days sessions =
     (let (ss, h1) = alloc_sessions h sessions;
          (l, h2) = alloc h1 (ListObj ss)
      in alloc h2 (TemplateObj \<lparr>template_name = name, days_per_week = days, template_sessions = l\<rparr>))"

definition get_full_body_template :: "heap \<Rightarrow> addr \<times> heap" where
  "get_full_body_template h = alloc_template h ''Full Body'' 3 full_body_sessions"

definition get_upper_lower_template :: "heap \<Rightarrow> addr \<times> heap" where
  "get_upper_lower_template h = alloc_template h ''Upper/Lower'' 4 upper_lower_sessions"

definition get_ppl_template :: "heap \<Rightarrow> addr \<times> heap" where
  "get_ppl_template h = alloc_template h ''Push/Pull/Legs'' 6 ppl_sessions"

text \<open>
  The hybrid template builds an upper/lower and a push/pull/legs template of its own and
  puts the first two sessions of the one and the sessions of the other into a new list.
  Both templates have just been built, so the two reads find their lists.
\<close>

definition get_upper_lower_ppl_template :: "heap \<Rightarrow> addr \<times> heap" where
  "get_upper_lower_ppl_template h =
     (let (ul, h1) = get_upper_lower_template h;
          (ppl, h2) = get_ppl_template h1;
          (l, h3) = alloc h2 (ListObj (take 2 (get_or (sessions_of h2 ul) [])
                                        @ get_or (sessions_of h2 ppl) []))
      in alloc h3 (TemplateObj \<lparr>template_name = ''Upper/Lower + PPL'', days_per_week = 5,
                                 template_sessions = l\<rparr>))"

record rep_scheme =
  rs_sets :: int
  rs_reps :: string
  rs_rest :: string

text \<open>
  \<open>self.rep_schemes\<close> is written once by \<open>__init__\<close> and only read afterwards; it is a
  constant of the model.
\<close>

definition rep_schemes :: "(string \<times> rep_scheme) list" where
  "rep_schemes =
     [(''strength'', \<lparr>rs_sets = 4, rs_reps = ''4-6'', rs_rest = ''3-5 min''\<rparr>),
      (''muscle_building'', \<lparr>rs_sets = 3, rs_reps = ''8-12'', rs_rest = ''60-90 sec''\<rparr>),
      (''fat_loss'', \<lparr>rs_sets = 3, rs_reps = ''12-15'', rs_rest = ''30-60 sec''\<rparr>),
      (''endurance'', \<lparr>rs_sets = 2, rs_reps = ''15-20'', rs_rest = ''30 sec''\<rparr>)]"

text \<open>
  The generator: the store and \<open>self.splits\<close>, the dictionary from split names to
  templates.
\<close>

record generator =
  objects :: heap
  splits :: "(string \<times> addr) list"

definition WorkoutGenerator :: generator where
  "WorkoutGenerator =
     (let (full_body, h1) = get_full_body_template [];
          (upper_lower, h2) = get_upper_lower_template h1;
          (ppl, h3) = get_ppl_template h2;
          (upper_lower_ppl, h4) = get_upper_lower_ppl_template h3
      in \<lparr>objects = h4,
          splits = [(''full_body'', full_body), (''upper_lower'', upper_lower), (''ppl'', ppl),
                    (''upper_lower_ppl'', upper_lower_ppl)]\<rparr>)"

subsection \<open>Adjusting a template\<close>

text \<open>
  Each \<open>_adjust_for_...\<close> method and \<open>_apply_rep_scheme\<close> takes a reference to a template,
  writes into the objects it reaches and returns the reference it was given.
  \<open>session['exercises'] = session['exercises'][:5]\<close> makes a new list from the slice and
  stores its reference in the session dictionary.
\<close>

definition truncate_session :: "addr \<Rightarrow> heap \<Rightarrow> heap option" where
  "truncate_session session h =
     (case session_at h session of
        None \<Rightarrow> None
      | Some s \<Rightarrow>
          (case list_at h (session_exercises s) of
             None \<Rightarrow> None
           | Some es \<Rightarrow>
               let (l, h') = alloc h (ListObj (take 5 es))
               in Some (h'[session := SessionObj (s\<lparr>session_exercises := l\<rparr>)])))"

definition adjust_for_experience :: "heap \<Rightarrow> addr \<Rightarrow> string \<Rightarrow> (addr \<times> heap) option" where
  "adjust_for_experience h template level =
     (if level = ''beginner'' then
        (case sessions_of h template of
           None \<Rightarrow> None
         | Some ss \<Rightarrow> map_option (Pair template) (for_each truncate_session ss h))
      else Some (template, h))"

definition substitutions :: "(string \<times> (string \<times> string) list) list" where
  "substitutions =
     [(''bodyweight'',
        [(''Bench Press'', ''Push-ups''),
         (''Barbell Row'', ''Inverted Row''),
         (''Squat'', ''Bodyweight Squat''),
         (''Deadlift'', ''Single Leg RDL''),
         (''Overhead Press'', ''Pike Push-ups''),
         (''Leg Press'', ''Bulgarian Split Squat''),
         (''Lat Pulldown'', ''Pull-ups''),
         (''Cable Row'', ''Inverted Row''),
         (''Leg Curl'', ''Nordic Curl''),
         (''Leg Extension'', ''Sissy Squat'')]),
      (''home_gym'',
        [(''Leg Press'', ''Goblet Squat''),
         (''Lat Pulldown'', ''Pull-ups''),
         (''Cable Row'', ''Dumbbell Row''),
         (''Cable Fly'', ''Dumbbell Fly''),
         (''Leg Curl'', ''Dumbbell Leg Curl''),
         (''Leg Extension'', ''Dumbbell Step-up'')])]"

definition limitation_subs :: "(string \<times> (string \<times> string) list) list" where
  "limitation_subs =
     [(''lower_back'',
        [(''Deadlift'', ''Hip Thrust''),
         (''Barbell Row'', ''Chest Supported Row''),
         (''Squat'', ''Leg Press'')]),
      (''knee'',
        [(''Squat'', ''Box Squat''),
         (''Lunges'', ''Step-ups''),
         (''Leg Extension'', ''Terminal Knee Extension'')]),
      (''shoulder'',
        [(''Overhead Press'', ''Landmine Press''),
         (''Bench Press'', ''Floor Press''),
         (''Lateral Raises'', ''Cable Lateral Raise'')])]"

text \<open>\<open>if exercise['name'] in subs: exercise['name'] = subs[exercise['name']]\<close>\<close>

definition rename_exercise :: "(string \<times> string) list \<Rightarrow> addr \<Rightarrow> heap \<Rightarrow> heap option" where
  "rename_exercise subs exercise h =
     (case exercise_at h exercise of
        None \<Rightarrow> None
      | Some e \<Rightarrow>
          (case map_of subs (ex_name e) of
             Some new_name \<Rightarrow> Some (h[exercise := ExerciseObj (e\<lparr>ex_name := new_name\<rparr>)])
           | None \<Rightarrow> Some h))"

text \<open>
  The two nested loops over the sessions of a template and the exercises of a session,
  which \<open>_adjust_for_equipment\<close>, \<open>_adjust_for_limitations\<close> and \<open>_apply_rep_scheme\<close> each
  write out with a body of their own.
\<close>

definition for_each_exercise :: "(addr \<Rightarrow> heap \<Rightarrow> heap option) \<Rightarrow> addr \<Rightarrow> heap \<Rightarrow> heap option" where
  "for_each_exercise body template h =
     (case sessions_of h template of
        None \<Rightarrow> None
      | Some ss \<Rightarrow>
          for_each (\<lambda>session h. case exercises_of h session of
                                  None \<Rightarrow> None
                                | Some es \<Rightarrow> for_each body es h)
            ss h)"

definition adjust_for_equipment :: "heap \<Rightarrow> addr \<Rightarrow> string \<Rightarrow> (addr \<times> heap) option" where
  "adjust_for_equipment h template equipment =
     (case map_of substitutions equipment of
        Some subs \<Rightarrow> map_option (Pair template) (for_each_exercise (rename_exercise subs) template h)
      | None \<Rightarrow> Some (template, h))"

definition adjust_for_limitations :: "heap \<Rightarrow> addr \<Rightarrow> string list \<Rightarrow> (addr \<times> heap) option" where
  "adjust_for_limitations h template limitations =
     map_option (Pair template)
       (for_each (\<lambda>limitation h. case map_of limitation_subs limitation of
                                    Some subs \<Rightarrow> for_each_exercise (rename_exercise subs) template h
                                  | None \<Rightarrow> Some h)
          limitations h)"

definition set_scheme :: "rep_scheme \<Rightarrow> addr \<Rightarrow> heap \<Rightarrow> heap option" where
  "set_scheme rep_scheme exercise h =
     (case exercise_at h exercise of
        None \<Rightarrow> None
      | Some e \<Rightarrow>
          if ex_type e = ''compound'' then
            Some (h[exercise := ExerciseObj (e\<lparr>ex_sets := Some (rs_sets rep_scheme),
                                                ex_reps := Some (rs_reps rep_scheme),
                                                ex_rest := Some (rs_rest rep_scheme)\<rparr>)])
          else
            Some (h[exercise := ExerciseObj (e\<lparr>ex_sets := Some (rs_sets rep_scheme),
                                                ex_reps := Some ''10-15'',
                                                ex_rest := Some ''60 sec''\<rparr>)]))"

definition apply_rep_scheme :: "heap \<Rightarrow> addr \<Rightarrow> rep_scheme \<Rightarrow> (addr \<times> heap) option" where
  "apply_rep_scheme h template rep_scheme =
     map_option (Pair template) (for_each_exercise (set_scheme rep_scheme) template h)"

definition get_week_notes :: "int \<Rightarrow> int \<Rightarrow> string" where
  "get_week_notes week_num total_weeks =
     (if week_num = 1 then ''Focus on form. Use moderate weights to learn movements.''
      else if week_num = total_weeks then ''Final week! Push hard but consider a deload after this.''
      else if week_num mod 4 = 0 then ''Deload week if needed. Reduce volume by 40%.''
      else ''Progressive overload. Try to beat last week's numbers.'')"

subsection \<open>Generating a plan\<close>

text \<open>
  The plan dictionary, its list of weeks and the week dictionaries are made by the call
  and reached only through its result, so they are values here; the entry \<open>sessions\<close> of a
  week is the reference \<open>template['sessions']\<close>. The result is \<open>None\<close> when a read through
  a reference fails or a default key is missing from a dictionary.
\<close>

record week =
  week_number :: int
  week_sessions :: addr
  week_notes :: string

record plan =
  plan_split_type :: string
  plan_goal :: string
  plan_experience_level :: string
  plan_weeks :: "week list"

definition generate_plan ::
  "generator \<Rightarrow> string \<Rightarrow> string \<Rightarrow> string \<Rightarrow> string \<Rightarrow> int \<Rightarrow> string list option
     \<Rightarrow> (plan \<times> generator) option" where
  "generate_plan self split_type experience_level goal equipment weeks limitations =
     (let limitations = (case limitations of None \<Rightarrow> [] | Some l \<Rightarrow> l)
      in case map_of (splits self) ''full_body'' of
           None \<Rightarrow> None
         | Some full_body \<Rightarrow>
      let template = get_or (map_of (splits self) split_type) full_body
      in case adjust_for_experience (objects self) template experience_level of
           None \<Rightarrow> None
         | Some (template, h) \<Rightarrow>
      case adjust_for_equipment h template equipment of
           None \<Rightarrow> None
         | Some (template, h) \<Rightarrow>
      case adjust_for_limitations h template limitations of
           None \<Rightarrow> None
         | Some (template, h) \<Rightarrow>
      case map_of rep_schemes ''muscle_building'' of
           None \<Rightarrow> None
         | Some muscle_building \<Rightarrow>
      let rep_scheme = get_or (map_of rep_schemes goal) muscle_building
      in case apply_rep_scheme h template rep_scheme of
           None \<Rightarrow> None
         | Some (template, h) \<Rightarrow>
      case template_at h template of
           None \<Rightarrow> None
         | Some t \<Rightarrow>
             Some (\<lparr>plan_split_type = split_type, plan_goal = goal,
                    plan_experience_level = experience_level,
                    plan_weeks = map (\<lambda>week_num. \<lparr>week_number = week_num,
                                                    week_sessions = template_sessions t,
                                                    week_notes = get_week_notes week_num weeks\<rparr>)
                                   [1..weeks]\<rparr>,
                   self\<lparr>objects := h\<rparr>))"

subsection \<open>Reading a plan out of the store\<close>

text \<open>
  The sessions a reference stands for, with their exercises, as a value: what writing the
  plan to a file records for the entry \<open>sessions\<close> of a week.
\<close>

record session_value =
  sv_name :: string
  sv_exercises :: "exercise list"

definition read_session :: "heap \<Rightarrow> addr \<Rightarrow> session_value option" where
  "read_session h s =
     (case session_at h s of
        None \<Rightarrow> None
      | Some sess \<Rightarrow>
          (case list_at h (session_exercises sess) of
             None \<Rightarrow> None
           | Some es \<Rightarrow>
               map_option (\<lambda>exs. \<lparr>sv_name = session_name sess, sv_exercises = exs\<rparr>)
                 (those (map (exercise_at h) es))))"

definition read_sessions :: "heap \<Rightarrow> addr \<Rightarrow> session_value list option" where
  "read_sessions h l =
     (case list_at h l of None \<Rightarrow> None | Some ss \<Rightarrow> those (map (read_session h) ss))"

definition read_template :: "heap \<Rightarrow> addr \<Rightarrow> session_value list option" where
  "read_template h template =
     (case template_at h template of
        None \<Rightarrow> None
      | Some t \<Rightarrow> read_sessions h (template_sessions t))"

text \<open>The template the generator holds for a split, as a value.\<close>

definition stored_template :: "generator \<Rightarrow> string \<Rightarrow> session_value list option" where
  "stored_template self split_type =
     (case map_of (splits self) split_type of
        None \<Rightarrow> None
      | Some template \<Rightarrow> read_template (objects self) template)"


section \<open>The store: values as built, invariants and relations\<close>

text \<open>The value of a template slot and of a session as the template tables give them.\<close>

definition initial_exercise :: "string \<times> string \<times> string \<Rightarrow> exercise" where
  "initial_exercise x = (case x of (name, type, muscle) \<Rightarrow>
     \<lparr>ex_name = name, ex_type = type, ex_muscle = muscle, ex_sets = None, ex_reps = None,
      ex_rest = None\<rparr>)"

definition initial_session :: "string \<times> (string \<times> string \<times> string) list \<Rightarrow> session_value" where
  "initial_session x = (case x of (name, exs) \<Rightarrow>
     \<lparr>sv_name = name, sv_exercises = map initial_exercise exs\<rparr>)"

text \<open>
  Two relations between the store before and after a piece of code. \<open>same_frame\<close>: every
  template, list and session is as it was, and every exercise is still an exercise of the
  same type. \<open>evolves\<close>: templates are as they were, lists that existed are as they were,
  exercises are still exercises and sessions that could be read can still be read.
\<close>

definition same_frame :: "heap \<Rightarrow> heap \<Rightarrow> bool" where
  "same_frame h h' =
     ((\<forall>a. template_at h' a = template_at h a) \<and> (\<forall>a. list_at h' a = list_at h a)
      \<and> (\<forall>a. session_at h' a = session_at h a)
      \<and> (\<forall>a. (exercise_at h' a = None) = (exercise_at h a = None))
      \<and> (\<forall>a x x'. exercise_at h a = Some x \<longrightarrow> exercise_at h' a = Some x' \<longrightarrow> ex_type x' = ex_type x))"

definition evolves :: "heap \<Rightarrow> heap \<Rightarrow> bool" where
  "evolves h h' =
     ((\<forall>a. template_at h' a = template_at h a)
      \<and> (\<forall>a l. list_at h a = Some l \<longrightarrow> list_at h' a = Some l)
      \<and> (\<forall>a. exercise_at h a \<noteq> None \<longrightarrow> exercise_at h' a \<noteq> None)
      \<and> (\<forall>s. read_session h s \<noteq> None \<longrightarrow> read_session h' s \<noteq> None))"

text \<open>What \<open>_apply_rep_scheme\<close> leaves in a slot, for a given scheme.\<close>

definition scheme_applied :: "rep_scheme \<Rightarrow> exercise \<Rightarrow> bool" where
  "scheme_applied sch x =
     (ex_sets x = Some (rs_sets sch)
      \<and> (if ex_type x = ''compound''
         then ex_reps x = Some (rs_reps sch) \<and> ex_rest x = Some (rs_rest sch)
         else ex_reps x = Some ''10-15'' \<and> ex_rest x = Some ''60 sec''))"

text \<open>A generator whose every split, and the default split, can be read out of its store.\<close>

definition wf_generator :: "generator \<Rightarrow> bool" where
  "wf_generator self =
     (stored_template self ''full_body'' \<noteq> None
      \<and> list_all (\<lambda>name. stored_template self name \<noteq> None) (map fst (splits self)))"

section \<open>Sample inputs and the specification's wording\<close>

definition at_noon :: "int \<Rightarrow> int \<Rightarrow> int \<Rightarrow> datetime" where
  "at_noon y m d = \<lparr>dt_year = y, dt_month = m, dt_day = d, dt_hour = 12, dt_minute = 0,
     dt_second = 0, dt_microsecond = 0\<rparr>"

definition lift :: "string \<Rightarrow> int \<Rightarrow> int \<Rightarrow> int \<Rightarrow> logged_exercise" where
  "lift nm s r w = \<lparr>le_exercise = Some nm, le_name = None, le_sets = Some s, le_reps = Some r,
     le_weight = Some w\<rparr>"

definition session_of :: "datetime \<Rightarrow> logged_exercise list \<Rightarrow> workout" where
  "session_of d exs = \<lparr>w_date = d, w_exercises = Some exs, w_notes = None\<rparr>"

definition squat_log :: "int list \<Rightarrow> tracker" where
  "squat_log ws = ProgressTracker (Some (map (\<lambda>w. session_of (at_noon 2024 3 4) [lift ''Squat'' 3 5 w]) ws))"

definition year_end_log :: tracker where
  "year_end_log = ProgressTracker (Some
     [session_of (at_noon 2024 12 23) [lift ''Squat'' 3 5 200],
      session_of (at_noon 2024 12 30) [lift ''Squat'' 3 5 205]])"

definition unloaded_log :: "workout list" where
  "unloaded_log =
     [session_of (at_noon 2024 3 4) [lift ''Plank'' 3 1 0],
      session_of (at_noon 2024 3 6)
        [\<lparr>le_exercise = None, le_name = Some ''plank'', le_sets = Some 3, le_reps = Some 1,
          le_weight = None\<rparr>]]"

text \<open>
  The mapping and the count as the specification words them, with the ISO year of the
  date in the pair: kept beside \<^const>\<open>week_of\<close> and \<^const>\<open>get_consecutive_weeks\<close> for
  comparison.
\<close>

definition spec_week_of :: "datetime \<Rightarrow> int \<times> int" where
  "spec_week_of date = (fst (isocalendar date), fst (snd (isocalendar date)))"

definition spec_consecutive_weeks :: "workout list \<Rightarrow> nat" where
  "spec_consecutive_weeks ws =
     (if ws = [] then 0
      else count_consecutive (rev (sorted_list_of_set (set (map (\<lambda>w. spec_week_of (w_date w)) ws)))) 1)"

text \<open>
  The insights as the claim words them, from the log before the call and the exercises of
  the new entry. The previous data point of an exercise is the one that precedes it in the
  history of its name (names compared without case): the last such entry of the log or,
  when the new entry has the name more than once, the occurrence before it in the new
  entry. An exercise with no previous data point yields nothing; otherwise it yields the PR
  message exactly when its weight is strictly greater than the previous weight, and the
  rep-PR message exactly when the weights are equal and its reps are strictly greater. The
  messages follow the order of the new entry, and the fallback message stands alone when
  there is none.
\<close>

definition claimed_insight :: "tracker \<Rightarrow> logged_exercise list \<Rightarrow> logged_exercise \<Rightarrow> string list" where
  "claimed_insight self earlier e =
     (let nm = exercise_name_of e;
          preceding = map he_exercise (get_exercise_history self nm)
                     @ filter (\<lambda>x. lower (exercise_name_of x) = lower nm) earlier
      in if preceding = [] then []
         else
           let prev = last preceding;
               pw = get_or (le_weight prev) 0; w = get_or (le_weight e) 0;
               pr = get_or (le_reps prev) 0; r = get_or (le_reps e) 0
           in if w > pw then [pr_text nm pw w]
              else if w = pw \<and> r > pr then [rep_pr_text nm pr r]
              else [])"

definition claimed_insights :: "tracker \<Rightarrow> logged_exercise list \<Rightarrow> string list" where
  "claimed_insights self exs =
     (let insights = concat (map (\<lambda>i. claimed_insight self (take i exs) (exs ! i)) [0..<length exs])
      in if insights = [] then [solid_workout] else insights)"

text \<open>
  A variant of a key: every underscore of the key is written as one underscore, space or
  hyphen, and every other character may differ from the key's in letter case only.
\<close>

definition variant_char :: "char \<Rightarrow> char \<Rightarrow> bool" where
  "variant_char k c =
     (if k = CHR ''_'' then c = CHR ''_'' \<or> c = CHR '' '' \<or> c = CHR ''-'' else lower_char c = k)"

text \<open>What the normalization of \<open>get_exercise\<close> does to one character.\<close>

definition norm_char :: "char \<Rightarrow> char" where
  "norm_char c = (let c1 = lower_char c; c2 = (if c1 = CHR '' '' then CHR ''_'' else c1)
                  in if c2 = CHR ''-'' then CHR ''_'' else c2)"

section \<open>Properties\<close>

lemma Max_minus_Min_le:
  fixes ws :: "int list"
  assumes "ws \<noteq> []"
  shows "(Max (set ws) - Min (set ws) \<le> k) = (\<forall>x\<in>set ws. \<forall>y\<in>set ws. x - y \<le> k)"
proof
  assume h: "Max (set ws) - Min (set ws) \<le> k"
  show "\<forall>x\<in>set ws. \<forall>y\<in>set ws. x - y \<le> k"
  proof (intro ballI)
    fix x y assume "x \<in> set ws" "y \<in> set ws"
    then have "x \<le> Max (set ws)" "Min (set ws) \<le> y" by simp_all
    with h show "x - y \<le> k" by linarith
  qed
next
  assume h: "\<forall>x\<in>set ws. \<forall>y\<in>set ws. x - y \<le> k"
  from assms have "Max (set ws) \<in> set ws" "Min (set ws) \<in> set ws"
    by (simp_all add: Max_in Min_in)
  with h show "Max (set ws) - Min (set ws) \<le> k" by blast
qed

text \<open>
  C5. With at least four sessions in the exercise's history, \<open>detect_plateau\<close> reads the
  weights of the last four sessions (a missing weight counts as 0) and flags a plateau
  exactly when no two of them differ by more than 5, that is when max minus min is at
  most 5. A flagged result carries the fixed list of six recommendations and no message;
  an unflagged one carries the positive message and no recommendations. With fewer than
  four sessions the result is unflagged and carries the not-enough-data message.
\<close>

theorem detect_plateau_last_four:
  "(4 \<le> length (get_exercise_history self n) \<longrightarrow>
      (\<exists>ws. ws = map (\<lambda>h. get_or (le_weight (he_exercise h)) 0)
                   (drop (length (get_exercise_history self n) - 4) (get_exercise_history self n))
        \<and> length ws = 4
        \<and> recent_weights (fst (detect_plateau self n)) = Some ws
        \<and> weight_range (fst (detect_plateau self n)) = Some (Max (set ws) - Min (set ws))
        \<and> plateau_detected (fst (detect_plateau self n)) = (Max (set ws) - Min (set ws) \<le> 5)
        \<and> plateau_detected (fst (detect_plateau self n)) = (\<forall>x\<in>set ws. \<forall>y\<in>set ws. x - y \<le> 5)
        \<and> (plateau_detected (fst (detect_plateau self n)) \<longrightarrow>
             recommendations (fst (detect_plateau self n)) = Some plateau_recommendations
             \<and> pr_message (fst (detect_plateau self n)) = None)
        \<and> (\<not> plateau_detected (fst (detect_plateau self n)) \<longrightarrow>
             pr_message (fst (detect_plateau self n)) = Some ''No plateau detected. Keep progressing!''
             \<and> recommendations (fst (detect_plateau self n)) = None)))
   \<and> (length (get_exercise_history self n) < 4 \<longrightarrow>
        \<not> plateau_detected (fst (detect_plateau self n))
        \<and> pr_message (fst (detect_plateau self n))
            = Some ''Not enough data to detect plateau (need 4+ sessions)''
        \<and> recommendations (fst (detect_plateau self n)) = None)
   \<and> length plateau_recommendations = 6"
proof -
  let ?h = "get_exercise_history self n"
  let ?ws = "map (\<lambda>h. get_or (le_weight (he_exercise h)) 0) (drop (length ?h - 4) ?h)"
  have short: "length ?h < 4 \<Longrightarrow>
        \<not> plateau_detected (fst (detect_plateau self n))
        \<and> pr_message (fst (detect_plateau self n))
            = Some ''Not enough data to detect plateau (need 4+ sessions)''
        \<and> recommendations (fst (detect_plateau self n)) = None"
    by (simp add: detect_plateau_def)
  have six: "length plateau_recommendations = 6"
    by (simp add: plateau_recommendations_def)
  {
    assume long: "4 \<le> length ?h"
    then have len: "length ?ws = 4" by simp
    then have ne: "?ws \<noteq> []" by auto
    have eq: "fst (detect_plateau self n) =
        \<lparr>plateau_detected = (Max (set ?ws) - Min (set ?ws) \<le> 5),
         pr_message = (if Max (set ?ws) - Min (set ?ws) \<le> 5 then None
                       else Some ''No plateau detected. Keep progressing!''),
         sessions_analyzed = Some (length (drop (length ?h - 4) ?h)),
         weight_range = Some (Max (set ?ws) - Min (set ?ws)),
         recent_weights = Some ?ws,
         recommendations = (if Max (set ?ws) - Min (set ?ws) \<le> 5
                            then Some plateau_recommendations else None)\<rparr>"
      using long by (simp add: detect_plateau_def Let_def)
    have "length ?ws = 4
        \<and> recent_weights (fst (detect_plateau self n)) = Some ?ws
        \<and> weight_range (fst (detect_plateau self n)) = Some (Max (set ?ws) - Min (set ?ws))
        \<and> plateau_detected (fst (detect_plateau self n)) = (Max (set ?ws) - Min (set ?ws) \<le> 5)
        \<and> plateau_detected (fst (detect_plateau self n)) = (\<forall>x\<in>set ?ws. \<forall>y\<in>set ?ws. x - y \<le> 5)
        \<and> (plateau_detected (fst (detect_plateau self n)) \<longrightarrow>
             recommendations (fst (detect_plateau self n)) = Some plateau_recommendations
             \<and> pr_message (fst (detect_plateau self n)) = None)
        \<and> (\<not> plateau_detected (fst (detect_plateau self n)) \<longrightarrow>
             pr_message (fst (detect_plateau self n)) = Some ''No plateau detected. Keep progressing!''
             \<and> recommendations (fst (detect_plateau self n)) = None)"
      unfolding eq using len Max_minus_Min_le [OF ne, of 5] by simp
  }
  with short six show ?thesis by blast
qed

theorem detect_plateau_last_four_witness:
  "4 \<le> length (get_exercise_history (squat_log [200, 202, 198, 201]) ''squat'')
   \<and> plateau_detected (fst (detect_plateau (squat_log [200, 202, 198, 201]) ''squat''))
   \<and> recommendations (fst (detect_plateau (squat_log [200, 202, 198, 201]) ''squat''))
       = Some plateau_recommendations
   \<and> 4 \<le> length (get_exercise_history (squat_log [200, 210, 215, 220]) ''squat'')
   \<and> \<not> plateau_detected (fst (detect_plateau (squat_log [200, 210, 215, 220]) ''squat''))
   \<and> pr_message (fst (detect_plateau (squat_log [200, 210, 215, 220]) ''squat''))
       = Some ''No plateau detected. Keep progressing!''
   \<and> length (get_exercise_history (squat_log [200, 210, 215]) ''squat'') < 4
   \<and> pr_message (fst (detect_plateau (squat_log [200, 210, 215]) ''squat''))
       = Some ''Not enough data to detect plateau (need 4+ sessions)''"
proof -
  have h1: "map (\<lambda>h. get_or (le_weight (he_exercise h)) 0)
              (get_exercise_history (squat_log [200, 202, 198, 201]) ''squat'') = [200, 202, 198, 201]"
    by code_simp
  have h2: "map (\<lambda>h. get_or (le_weight (he_exercise h)) 0)
              (get_exercise_history (squat_log [200, 210, 215, 220]) ''squat'') = [200, 210, 215, 220]"
    by code_simp
  have h3: "length (get_exercise_history (squat_log [200, 210, 215]) ''squat'') = 3"
    by code_simp
  have l1: "length (get_exercise_history (squat_log [200, 202, 198, 201]) ''squat'') = 4"
    using arg_cong [OF h1, of length] by simp
  have l2: "length (get_exercise_history (squat_log [200, 210, 215, 220]) ''squat'') = 4"
    using arg_cong [OF h2, of length] by simp
  show ?thesis
    using detect_plateau_last_four [of "squat_log [200, 202, 198, 201]" "''squat''"]
      detect_plateau_last_four [of "squat_log [200, 210, 215, 220]" "''squat''"]
      detect_plateau_last_four [of "squat_log [200, 210, 215]" "''squat''"]
    by (simp add: h1 h2 h3 l1 l2)
qed

subsection \<open>Logging and its insights\<close>

lemma fold_append_concat:
  "fold (\<lambda>x acc. acc @ f x) xs acc0 = acc0 @ concat (map f xs)"
  by (induction xs arbitrary: acc0) simp_all

lemma history_append:
  "get_exercise_history (self\<lparr>workouts := workouts self @ [w]\<rparr>) nm
     = get_exercise_history self nm
       @ map (\<lambda>e. \<lparr>he_exercise = e, he_date = w_date w\<rparr>)
           (filter (\<lambda>e. lower (exercise_name_of e) = lower nm) (get_or (w_exercises w) []))"
  by (simp add: get_exercise_history_def)

lemma history_ignores_file:
  "get_exercise_history (self\<lparr>workouts_file := f\<rparr>) nm = get_exercise_history self nm"
  by (simp add: get_exercise_history_def)

lemma log_workout_history:
  "get_exercise_history (snd (log_workout self now exs notes)) nm
     = get_exercise_history self nm
       @ map (\<lambda>e. \<lparr>he_exercise = e, he_date = now\<rparr>)
           (filter (\<lambda>e. lower (exercise_name_of e) = lower nm) exs)"
  by (simp add: log_workout_def Let_def save_workouts_def history_ignores_file history_append get_or_def)

lemma distinct_key_filter:
  assumes d: "distinct (map g xs)" and i: "i < length xs"
  shows "filter (\<lambda>x. g x = g (xs ! i)) xs = [xs ! i]"
    and "filter (\<lambda>x. g x = g (xs ! i)) (take i xs) = []"
proof -
  have ne: "g (xs ! j) \<noteq> g (xs ! i)" if "j < length xs" "j \<noteq> i" for j
  proof
    assume "g (xs ! j) = g (xs ! i)"
    with that i have e: "map g xs ! j = map g xs ! i" by simp
    from that i have "j < length (map g xs)" "i < length (map g xs)" by simp_all
    with d have "(map g xs ! j = map g xs ! i) = (j = i)" by (rule nth_eq_iff_index_eq)
    with e that show False by blast
  qed
  have a: "filter (\<lambda>x. g x = g (xs ! i)) (take i xs) = []"
  proof -
    have "g x \<noteq> g (xs ! i)" if "x \<in> set (take i xs)" for x
    proof -
      from that obtain j where "j < length (take i xs)" "x = take i xs ! j"
        by (auto simp: in_set_conv_nth)
      with i have "j < length xs" "j \<noteq> i" "x = xs ! j" by simp_all
      then show ?thesis using ne by simp
    qed
    then show ?thesis by (simp add: filter_empty_conv)
  qed
  have b: "filter (\<lambda>x. g x = g (xs ! i)) (drop (Suc i) xs) = []"
  proof -
    have "g x \<noteq> g (xs ! i)" if "x \<in> set (drop (Suc i) xs)" for x
    proof -
      from that obtain j where "j < length (drop (Suc i) xs)" "x = drop (Suc i) xs ! j"
        by (auto simp: in_set_conv_nth)
      with i have "Suc i + j < length xs" "Suc i + j \<noteq> i" "x = xs ! (Suc i + j)" by simp_all
      then show ?thesis using ne by blast
    qed
    then show ?thesis by (simp add: filter_empty_conv)
  qed
  from i have "xs = take i xs @ xs ! i # drop (Suc i) xs" by (rule id_take_nth_drop)
  then have "filter (\<lambda>x. g x = g (xs ! i)) xs
      = filter (\<lambda>x. g x = g (xs ! i)) (take i xs @ xs ! i # drop (Suc i) xs)" by simp
  also have "\<dots> = [xs ! i]" by (simp add: a b)
  finally show "filter (\<lambda>x. g x = g (xs ! i)) xs = [xs ! i]" .
  show "filter (\<lambda>x. g x = g (xs ! i)) (take i xs) = []" by (rule a)
qed

text \<open>
  Where no name occurs twice in the new entry, \<open>history[-2]\<close> is the last data point
  logged before the call, and \<open>log_workout\<close> returns the insights the claim describes.
\<close>

lemma log_workout_insights_distinct:
  assumes d: "distinct (map (\<lambda>e. lower (exercise_name_of e)) exs)"
  shows "lr_insights (fst (log_workout self now exs notes)) = claimed_insights self exs"
proof -
  let ?self' = "snd (log_workout self now exs notes)"
  have one: "exercise_insights ?self' (exs ! i) = claimed_insight self (take i exs) (exs ! i)"
    if i: "i < length exs" for i
  proof -
    let ?e = "exs ! i"
    let ?old = "get_exercise_history self (exercise_name_of ?e)"
    note f = distinct_key_filter [OF d i]
    have h: "get_exercise_history ?self' (exercise_name_of ?e)
        = ?old @ [\<lparr>he_exercise = ?e, he_date = now\<rparr>]"
      by (simp add: log_workout_history f(1))
    show ?thesis
    proof (cases "?old = []")
      case True
      then show ?thesis by (simp add: exercise_insights_def claimed_insight_def h f(2) Let_def)
    next
      case False
      then have l: "2 \<le> length (?old @ [\<lparr>he_exercise = ?e, he_date = now\<rparr>])"
        by (cases ?old) simp_all
      from False have n: "(?old @ [\<lparr>he_exercise = ?e, he_date = now\<rparr>])
          ! (length (?old @ [\<lparr>he_exercise = ?e, he_date = now\<rparr>]) - 2) = last ?old"
        by (simp add: nth_append last_conv_nth)
      from False have m: "last (map he_exercise ?old) = he_exercise (last ?old)"
        by (simp add: last_map)
      show ?thesis
        unfolding exercise_insights_def claimed_insight_def h f(2) Let_def
        using False l n m by simp
    qed
  qed
  have "map (exercise_insights ?self') exs
      = map (exercise_insights ?self') (map ((!) exs) [0..<length exs])"
    by (simp only: map_nth)
  also have "\<dots> = map (\<lambda>i. exercise_insights ?self' (exs ! i)) [0..<length exs]"
    by (simp only: map_map comp_def)
  also have "\<dots> = map (\<lambda>i. claimed_insight self (take i exs) (exs ! i)) [0..<length exs]"
    by (rule map_cong) (simp_all add: one)
  finally have eq: "map (exercise_insights ?self') exs
      = map (\<lambda>i. claimed_insight self (take i exs) (exs ! i)) [0..<length exs]" .
  have "lr_insights (fst (log_workout self now exs notes)) = generate_workout_insights ?self' exs"
    by (simp add: log_workout_def Let_def)
  also have "\<dots> = claimed_insights self exs"
    unfolding generate_workout_insights_def claimed_insights_def Let_def fold_append_concat eq
    by simp
  finally show ?thesis .
qed

text \<open>
  C7. Each exercise of the new entry is to yield the PR message exactly when its weight is
  strictly greater than the previous weight, and the rep-PR message exactly when the
  weights are equal and its reps are strictly greater. \<open>_generate_workout_insights\<close>
  takes \<open>history[-2]\<close> of the history read after the append for the previous data point,
  which it is only while the new entry has the name once. With a squat at 180 in the log,
  a workout of squats at 190 and then 185 returns the fallback message alone, where the
  previous weight of the first squat is 180 and the claim gives the PR from 180 to 190; a
  workout of squats at 170, 100 and 100 returns a PR from 100 to 170, where the previous
  weight of the first squat is 180 and the claim gives no insight.
\<close>

theorem log_workout_repeated_exercise:
  "lr_insights (fst (log_workout (squat_log [180]) (at_noon 2024 3 9)
       [lift ''Squat'' 3 5 190, lift ''Squat'' 3 5 185] None))
     = [''Solid workout! Keep pushing.'']
   \<and> claimed_insights (squat_log [180]) [lift ''Squat'' 3 5 190, lift ''Squat'' 3 5 185]
     = [''PR on Squat! 180 -> 190'']
   \<and> lr_insights (fst (log_workout (squat_log [180]) (at_noon 2024 3 9)
       [lift ''Squat'' 3 5 170, lift ''Squat'' 3 5 100, lift ''Squat'' 3 5 100] None))
     = [''PR on Squat! 100 -> 170'']
   \<and> claimed_insights (squat_log [180])
       [lift ''Squat'' 3 5 170, lift ''Squat'' 3 5 100, lift ''Squat'' 3 5 100]
     = [''Solid workout! Keep pushing.'']"
  by code_simp

subsection \<open>The log is append-only\<close>

text \<open>
  C9. \<open>log_workout\<close> appends exactly one entry (the new workout) at the end of the log:
  the entries that were there are a prefix of the new log, unchanged and in order, and the
  file is rewritten with the new log. The report, plateau detection, the consecutive-week
  count, the fatigue estimate and the personal records return the tracker as they found it.
\<close>

theorem log_append_only:
  "workouts (snd (log_workout self now exs notes))
     = workouts self @ [\<lparr>w_date = now, w_exercises = Some exs, w_notes = notes\<rparr>]
   \<and> take (length (workouts self)) (workouts (snd (log_workout self now exs notes))) = workouts self
   \<and> length (workouts (snd (log_workout self now exs notes))) = Suc (length (workouts self))
   \<and> workouts_file (snd (log_workout self now exs notes))
       = Some (workouts (snd (log_workout self now exs notes)))
   \<and> snd (get_report self now exercise period) = self
   \<and> snd (detect_plateau self n) = self
   \<and> snd (get_consecutive_weeks self) = self
   \<and> snd (estimate_fatigue self now) = self
   \<and> snd (get_personal_records self) = self"
proof -
  have a: "workouts (snd (log_workout self now exs notes))
     = workouts self @ [\<lparr>w_date = now, w_exercises = Some exs, w_notes = notes\<rparr>]"
    by (simp add: log_workout_def save_workouts_def Let_def)
  have b: "workouts_file (snd (log_workout self now exs notes))
       = Some (workouts (snd (log_workout self now exs notes)))"
    by (simp add: log_workout_def save_workouts_def Let_def)
  have c: "snd (get_report self now exercise period) = self"
    by (simp add: get_report_def Let_def split: option.splits list.splits)
  have d: "snd (detect_plateau self n) = self"
    by (simp add: detect_plateau_def Let_def)
  have e: "snd (get_consecutive_weeks self) = self"
    by (simp add: get_consecutive_weeks_def Let_def)
  have f: "snd (estimate_fatigue self now) = self"
    by (simp add: estimate_fatigue_def Let_def split: option.splits)
  have g: "snd (get_personal_records self) = self"
    by (simp add: get_personal_records_def)
  from a b c d e f g show ?thesis by simp
qed

subsection \<open>The per-exercise report\<close>

text \<open>
  C10. When the exercise has entries in the period, the report counts every entry in
  \<open>total_sessions\<close> and returns every entry in its history, while starting weight,
  current weight, maximum, gain and trend are computed from the series of the entries'
  weights with the zeros removed (a missing weight is read as 0). In particular, when every
  entry has weight 0, the starting, current and maximum weights and the gain are 0 and the
  trend is \<open>stable\<close>.
\<close>

theorem exercise_report_weight_series:
  "report_entries n ws \<noteq> [] \<longrightarrow>
     (\<exists>d. get_exercise_report n ws = ExerciseData d
        \<and> total_sessions d = length (report_entries n ws)
        \<and> ed_history d = report_entries n ws
        \<and> (\<exists>series. series = filter (\<lambda>w. w \<noteq> 0) (map re_weight (report_entries n ws))
             \<and> starting_weight d = (if series = [] then 0 else hd series)
             \<and> current_weight d = (if series = [] then 0 else last series)
             \<and> max_weight d = (if series = [] then 0 else Max (set series))
             \<and> weight_gain d = (if length series \<ge> 2 then last series - hd series else 0)
             \<and> trend d = (if length series \<ge> 2 \<and> last series > hd series
                           then ''improving'' else ''stable''))
        \<and> ((\<forall>e\<in>set (report_entries n ws). re_weight e = 0) \<longrightarrow>
              starting_weight d = 0 \<and> current_weight d = 0 \<and> max_weight d = 0
              \<and> weight_gain d = 0 \<and> trend d = ''stable''))"
proof
  assume ne: "report_entries n ws \<noteq> []"
  let ?entries = "report_entries n ws"
  let ?series = "filter (\<lambda>w. w \<noteq> 0) (map re_weight ?entries)"
  have ser: "map re_weight (filter (\<lambda>e. re_weight e \<noteq> 0) ?entries) = ?series"
    by (simp add: filter_map comp_def)
  have zero: "(\<forall>e\<in>set ?entries. re_weight e = 0) \<Longrightarrow> ?series = []"
    by (simp add: filter_empty_conv)
  let ?d = "\<lparr>total_sessions = length ?entries,
             starting_weight = (if ?series \<noteq> [] then hd ?series else 0),
             current_weight = (if ?series \<noteq> [] then last ?series else 0),
             max_weight = (if ?series \<noteq> [] then Max (set ?series) else 0),
             weight_gain = (if length ?series \<ge> 2 then last ?series - hd ?series else 0),
             trend = (if length ?series \<ge> 2 \<and> last ?series > hd ?series
                      then ''improving'' else ''stable''),
             ed_history = ?entries\<rparr>"
  have rep: "get_exercise_report n ws = ExerciseData ?d"
    using ne unfolding get_exercise_report_def Let_def ser by simp
  show "\<exists>d. get_exercise_report n ws = ExerciseData d
        \<and> total_sessions d = length (report_entries n ws)
        \<and> ed_history d = report_entries n ws
        \<and> (\<exists>series. series = filter (\<lambda>w. w \<noteq> 0) (map re_weight (report_entries n ws))
             \<and> starting_weight d = (if series = [] then 0 else hd series)
             \<and> current_weight d = (if series = [] then 0 else last series)
             \<and> max_weight d = (if series = [] then 0 else Max (set series))
             \<and> weight_gain d = (if length series \<ge> 2 then last series - hd series else 0)
             \<and> trend d = (if length series \<ge> 2 \<and> last series > hd series
                           then ''improving'' else ''stable''))
        \<and> ((\<forall>e\<in>set (report_entries n ws). re_weight e = 0) \<longrightarrow>
              starting_weight d = 0 \<and> current_weight d = 0 \<and> max_weight d = 0
              \<and> weight_gain d = 0 \<and> trend d = ''stable'')"
  proof (intro exI [of _ ?d] conjI impI)
    show "get_exercise_report n ws = ExerciseData ?d" by (rule rep)
  qed (use zero in simp_all)
qed

theorem exercise_report_weight_series_witness:
  "report_entries ''Plank'' unloaded_log \<noteq> []
   \<and> map re_weight (report_entries ''Plank'' unloaded_log) = [0, 0]
   \<and> (\<exists>d. get_exercise_report ''Plank'' unloaded_log = ExerciseData d
        \<and> total_sessions d = 2 \<and> length (ed_history d) = 2
        \<and> starting_weight d = 0 \<and> current_weight d = 0 \<and> max_weight d = 0
        \<and> trend d = ''stable'')"
proof -
  have e: "map re_weight (report_entries ''Plank'' unloaded_log) = [0, 0]"
    by code_simp
  have l: "length (report_entries ''Plank'' unloaded_log) = 2"
    using arg_cong [OF e, of length] by simp
  then have ne: "report_entries ''Plank'' unloaded_log \<noteq> []" by auto
  have z: "\<forall>e\<in>set (report_entries ''Plank'' unloaded_log). re_weight e = 0"
    using arg_cong [OF e, of set] by auto
  show ?thesis
    using exercise_report_weight_series [of "''Plank''" unloaded_log] ne z l e by auto
qed

subsection \<open>Consecutive weeks at the turn of the year\<close>

text \<open>
  C3. Two workouts on Monday 23 December 2024 and Monday 30 December 2024 lie in the
  consecutive ISO weeks 2024-W52 and 2025-W01. \<open>get_consecutive_weeks\<close> pairs the ISO week
  number with the calendar year of the date, not with the ISO year: the second workout is
  filed under (2024, 1), the streak breaks and the method returns 1, where the count over
  (ISO year, ISO week) pairs is 2.
\<close>

theorem consecutive_weeks_year_end:
  "fst (get_consecutive_weeks year_end_log) = 1
   \<and> map (\<lambda>w. isocalendar (w_date w)) (workouts year_end_log) = [(2024, 52, 1), (2025, 1, 1)]
   \<and> map (\<lambda>w. week_of (w_date w)) (workouts year_end_log) = [(2024, 52), (2024, 1)]
   \<and> spec_consecutive_weeks (workouts year_end_log) = 2"
  by code_simp

subsection \<open>Looking an exercise up\<close>

lemma lower_char_idem: "lower_char (lower_char c) = lower_char c"
  by (simp add: lower_char_def)

lemma normalized_name_map: "normalized_name s = map norm_char s"
  by (simp add: normalized_name_def replace_def lower_def norm_char_def Let_def)

lemma norm_char_variant:
  assumes "norm_char k = k" and "variant_char k c"
  shows "norm_char c = k"
proof (cases "k = CHR ''_''")
  case True
  with assms(2) have "c = CHR ''_'' \<or> c = CHR '' '' \<or> c = CHR ''-''"
    by (simp add: variant_char_def)
  then show ?thesis using True
    by (auto simp: norm_char_def lower_char_def)
next
  case False
  with assms(2) have k: "lower_char c = k" by (simp add: variant_char_def)
  then have "lower_char k = k" using lower_char_idem [of c] by simp
  with assms(1) k show ?thesis by (simp add: norm_char_def Let_def)
qed

lemma normalized_variant:
  "list_all2 variant_char key v \<Longrightarrow> normalized_name key = key \<Longrightarrow> normalized_name v = key"
  unfolding normalized_name_map
proof (induction rule: list_all2_induct)
  case Nil
  then show ?case by simp
next
  case (Cons k ks c cs)
  from Cons.prems have k: "norm_char k = k" and ks: "map norm_char ks = ks" by simp_all
  from k Cons.hyps(1) have "norm_char c = k" by (rule norm_char_variant)
  moreover from ks have "map norm_char cs = ks" by (rule Cons.IH)
  ultimately show ?case by simp
qed

lemma get_exercise_exact:
  assumes "distinct (map fst (exercises self))" and "(key, r) \<in> set (exercises self)"
    and "normalized_name v = key"
  shows "get_exercise self v = Found r"
proof -
  from assms(1,2) have "map_of (exercises self) key = Some r" by (rule map_of_is_SomeI)
  with assms(3) show ?thesis by (simp add: get_exercise_def)
qed

lemma get_exercise_not_found:
  "(get_exercise self name = NotFound (''Exercise \"'' @ name @ ''\" not found in library''))
     = (\<forall>(k, r)\<in>set (exercises self).
          \<not> sublist (normalized_name name) k \<and> \<not> sublist k (normalized_name name))"
proof
  assume "get_exercise self name = NotFound (''Exercise \"'' @ name @ ''\" not found in library'')"
  then have "find (\<lambda>(key, exercise). sublist (normalized_name name) key \<or> sublist key (normalized_name name))
                     (exercises self) = None"
    by (simp add: get_exercise_def Let_def split: option.splits prod.splits)
  then show "\<forall>(k, r)\<in>set (exercises self).
          \<not> sublist (normalized_name name) k \<and> \<not> sublist k (normalized_name name)"
    by (auto simp: find_None_iff)
next
  assume h: "\<forall>(k, r)\<in>set (exercises self).
          \<not> sublist (normalized_name name) k \<and> \<not> sublist k (normalized_name name)"
  then have f: "find (\<lambda>(key, exercise). sublist (normalized_name name) key \<or> sublist key (normalized_name name))
                     (exercises self) = None"
    by (auto simp: find_None_iff)
  have "map_of (exercises self) (normalized_name name) = None"
  proof (cases "map_of (exercises self) (normalized_name name)")
    case None then show ?thesis .
  next
    case (Some r)
    then have "(normalized_name name, r) \<in> set (exercises self)" by (rule map_of_SomeD)
    with h show ?thesis by auto
  qed
  with f show "get_exercise self name = NotFound (''Exercise \"'' @ name @ ''\" not found in library'')"
    by (simp add: get_exercise_def Let_def)
qed

lemma database_keys_distinct: "distinct (map fst (exercises ExerciseLibrary))"
  unfolding ExerciseLibrary_def by code_simp

lemma database_keys_normalized:
  "list_all (\<lambda>k. normalized_name k = k) (map fst (exercises ExerciseLibrary))"
  unfolding ExerciseLibrary_def by code_simp

text \<open>
  C2, as the code has it. For every key of the exercise database and every variant of it
  that writes each underscore as exactly one underscore, space or hyphen and otherwise
  differs in letter case only, \<open>get_exercise\<close> on the variant returns the record stored
  under the key, as the canonical key does. For a name whose normalization neither contains
  a key nor is contained in one, \<open>get_exercise\<close> returns the not-found dictionary with
  its message; it is a total function and raises nothing.
\<close>

theorem lookup_variant:
  "((key, r) \<in> set (exercises ExerciseLibrary) \<and> list_all2 variant_char key v \<longrightarrow>
      get_exercise ExerciseLibrary v = Found r \<and> get_exercise ExerciseLibrary key = Found r)
   \<and> ((\<forall>(k, r)\<in>set (exercises self).
          \<not> sublist (normalized_name name) k \<and> \<not> sublist k (normalized_name name)) \<longrightarrow>
        get_exercise self name = NotFound (''Exercise \"'' @ name @ ''\" not found in library''))"
proof (intro conjI impI)
  assume h: "(key, r) \<in> set (exercises ExerciseLibrary) \<and> list_all2 variant_char key v"
  then have "key \<in> set (map fst (exercises ExerciseLibrary))" by force
  with database_keys_normalized have nk: "normalized_name key = key"
    by (auto simp: list_all_iff)
  from h have nv: "normalized_name v = key" by (simp add: normalized_variant nk)
  from h show "get_exercise ExerciseLibrary v = Found r"
    using get_exercise_exact [OF database_keys_distinct _ nv] by simp
  from h show "get_exercise ExerciseLibrary key = Found r"
    using get_exercise_exact [OF database_keys_distinct _ nk] by simp
next
  assume "\<forall>(k, r)\<in>set (exercises self).
          \<not> sublist (normalized_name name) k \<and> \<not> sublist k (normalized_name name)"
  then show "get_exercise self name = NotFound (''Exercise \"'' @ name @ ''\" not found in library'')"
    by (simp only: get_exercise_not_found)
qed

theorem lookup_variant_witness:
  "(''bench_press'', rec_bench_press) \<in> set (exercises ExerciseLibrary)
   \<and> list_all2 variant_char ''bench_press'' ''Bench-PRESS''
   \<and> get_exercise ExerciseLibrary ''Bench-PRESS'' = Found rec_bench_press
   \<and> get_exercise ExerciseLibrary ''zumba'' = NotFound ''Exercise \"zumba\" not found in library''"
proof -
  have a: "(''bench_press'', rec_bench_press) \<in> set (exercises ExerciseLibrary)"
    by (simp add: ExerciseLibrary_def build_exercise_database_def)
  have b: "list_all2 variant_char ''bench_press'' ''Bench-PRESS''"
    by code_simp
  have "list_all (\<lambda>(k, r). \<not> sublist (normalized_name ''zumba'') k \<and> \<not> sublist k (normalized_name ''zumba''))
          (exercises ExerciseLibrary)"
    by code_simp
  then have c: "\<forall>(k, r)\<in>set (exercises ExerciseLibrary).
          \<not> sublist (normalized_name ''zumba'') k \<and> \<not> sublist k (normalized_name ''zumba'')"
    by (simp add: list_all_iff)
  note t = lookup_variant [of "''bench_press''" rec_bench_press "''Bench-PRESS''" ExerciseLibrary "''zumba''"]
  have x: "get_exercise ExerciseLibrary ''Bench-PRESS'' = Found rec_bench_press"
    using conjunct1 [OF t, THEN mp, OF conjI [OF a b]] by (rule conjunct1)
  have y: "get_exercise ExerciseLibrary ''zumba''
             = NotFound (''Exercise \"'' @ ''zumba'' @ ''\" not found in library'')"
    using conjunct2 [OF t, THEN mp, OF c] .
  have z: "get_exercise ExerciseLibrary ''zumba'' = NotFound ''Exercise \"zumba\" not found in library''"
    unfolding y by simp
  show ?thesis
    by (intro conjI) (rule a, rule b, rule x, rule z)
qed

text \<open>
  The normalization maps each space and each hyphen to one underscore and collapses
  nothing: with two spaces between the words the name normalizes to \<open>bench__press\<close>, which
  is no key, contains no key and is contained in none, and the lookup reports not found
  where the canonical key returns the record.
\<close>

theorem lookup_double_space_counterexample:
  "get_exercise ExerciseLibrary ''bench  press''
     = NotFound ''Exercise \"bench  press\" not found in library''
   \<and> get_exercise ExerciseLibrary ''bench_press'' = Found rec_bench_press"
  by code_simp

subsection \<open>Alternatives for missing equipment\<close>

text \<open>
  C6. For every exercise name, the alternatives for the reason \<open>equipment\<close> are the
  alternatives for the reason \<open>general\<close> filtered, in order, to those whose lower-cased
  name contains \<open>dumbbell\<close>, \<open>bodyweight\<close> or \<open>band\<close>: a subsequence of the general
  list, every element of which contains one of the three words, and the empty list when no
  alternative contains one.
\<close>

theorem equipment_alternatives:
  "get_alternatives self x ''equipment''
     = filter (\<lambda>alt. \<exists>eq\<in>set equipment_words. sublist eq (lower alt)) (get_alternatives self x ''general'')
   \<and> subseq (get_alternatives self x ''equipment'') (get_alternatives self x ''general'')
   \<and> (\<forall>alt\<in>set (get_alternatives self x ''equipment''). \<exists>eq\<in>set equipment_words. sublist eq (lower alt))
   \<and> ((\<forall>alt\<in>set (get_alternatives self x ''general'').
          \<not> (\<exists>eq\<in>set equipment_words. sublist eq (lower alt))) \<longrightarrow>
        get_alternatives self x ''equipment'' = [])
   \<and> equipment_words = [''dumbbell'', ''bodyweight'', ''band'']"
proof -
  let ?P = "\<lambda>alt. \<exists>eq\<in>set equipment_words. sublist eq (lower alt)"
  let ?g = "get_alternatives self x ''general''"
  have ne: "''general'' \<noteq> ''equipment''" by simp
  have eq: "get_alternatives self x ''equipment'' = filter ?P ?g"
    by (cases "get_exercise self x") (simp_all add: get_alternatives_def list_ex_iff ne)
  have a: "subseq (filter ?P ?g) ?g" by (rule subseq_filter_left)
  have b: "\<forall>alt\<in>set (filter ?P ?g). ?P alt" by simp
  have c: "(\<forall>alt\<in>set ?g. \<not> ?P alt) \<longrightarrow> filter ?P ?g = []"
    by (simp add: filter_empty_conv)
  have d: "equipment_words = [''dumbbell'', ''bodyweight'', ''band'']"
    by (rule equipment_words_def)
  show ?thesis unfolding eq using a b c d by (intro conjI) (rule refl)
qed

theorem equipment_alternatives_witness:
  "get_alternatives ExerciseLibrary ''bench press'' ''general''
     = [''Dumbbell Bench Press'', ''Push-ups'', ''Machine Chest Press'', ''Floor Press'']
   \<and> get_alternatives ExerciseLibrary ''bench press'' ''equipment'' = [''Dumbbell Bench Press'']
   \<and> list_all (\<lambda>alt. \<not> list_ex (\<lambda>eq. sublist eq (lower alt)) equipment_words)
          (get_alternatives ExerciseLibrary ''squat'' ''general'')
   \<and> get_alternatives ExerciseLibrary ''squat'' ''equipment'' = []"
proof -
  have g: "get_alternatives ExerciseLibrary ''bench press'' ''general''
     = [''Dumbbell Bench Press'', ''Push-ups'', ''Machine Chest Press'', ''Floor Press'']"
    by code_simp
  have f: "filter (\<lambda>alt. list_ex (\<lambda>eq. sublist eq (lower alt)) equipment_words)
             [''Dumbbell Bench Press'', ''Push-ups'', ''Machine Chest Press'', ''Floor Press'']
           = [''Dumbbell Bench Press'']"
    by code_simp
  have s0: "list_all (\<lambda>alt. \<not> list_ex (\<lambda>eq. sublist eq (lower alt)) equipment_words)
          (get_alternatives ExerciseLibrary ''squat'' ''general'')"
    by code_simp
  then have s: "\<forall>alt\<in>set (get_alternatives ExerciseLibrary ''squat'' ''general'').
          \<not> (\<exists>eq\<in>set equipment_words. sublist eq (lower alt))"
    by (simp only: list_all_iff list_ex_iff)
  note t1 = equipment_alternatives [of ExerciseLibrary "''bench press''"]
  note t2 = equipment_alternatives [of ExerciseLibrary "''squat''"]
  have e1: "get_alternatives ExerciseLibrary ''bench press'' ''equipment'' = [''Dumbbell Bench Press'']"
    unfolding conjunct1 [OF t1] g list_ex_iff [symmetric] by (rule f)
  have e2: "get_alternatives ExerciseLibrary ''squat'' ''equipment'' = []"
    using t2 [THEN conjunct2, THEN conjunct2, THEN conjunct2, THEN conjunct1, THEN mp, OF s] .
  show ?thesis
    by (intro conjI) (rule g, rule e1, rule s0, rule e2)
qed

section \<open>Properties of the workout generator\<close>

subsection \<open>Reading the store\<close>

lemma those_map_Some:
  "(those (map f xs) = Some ys) = list_all2 (\<lambda>x y. f x = Some y) xs ys"
proof (induction xs arbitrary: ys)
  case Nil
  then show ?case by auto
next
  case (Cons x xs)
  show ?case
    by (cases "f x"; cases ys) (auto simp: Cons.IH split: option.splits)
qed

lemma those_map_None:
  "(those (map f xs) = None) = (\<exists>x\<in>set xs. f x = None)"
  by (induction xs) (auto split: option.splits)


lemma deref_prefix: "deref h a = Some ob \<Longrightarrow> prefix h h' \<Longrightarrow> deref h' a = Some ob"
  by (auto simp: deref_def prefix_def nth_append split: if_splits)

lemma exercise_at_prefix: "exercise_at h a = Some e \<Longrightarrow> prefix h h' \<Longrightarrow> exercise_at h' a = Some e"
  by (auto simp: exercise_at_def dest: deref_prefix split: option.splits obj.splits)

lemma session_at_prefix: "session_at h a = Some s \<Longrightarrow> prefix h h' \<Longrightarrow> session_at h' a = Some s"
  by (auto simp: session_at_def dest: deref_prefix split: option.splits obj.splits)

lemma list_at_prefix: "list_at h a = Some l \<Longrightarrow> prefix h h' \<Longrightarrow> list_at h' a = Some l"
  by (auto simp: list_at_def dest: deref_prefix split: option.splits obj.splits)

lemma template_at_prefix: "template_at h a = Some t \<Longrightarrow> prefix h h' \<Longrightarrow> template_at h' a = Some t"
  by (auto simp: template_at_def dest: deref_prefix split: option.splits obj.splits)


lemma read_exercises_prefix:
  assumes "those (map (exercise_at h) es) = Some exs" and "prefix h h'"
  shows "those (map (exercise_at h') es) = Some exs"
proof -
  from assms(1) have "list_all2 (\<lambda>x y. exercise_at h x = Some y) es exs"
    by (simp only: those_map_Some)
  then have "list_all2 (\<lambda>x y. exercise_at h' x = Some y) es exs"
    by (rule list_all2_mono) (rule exercise_at_prefix [OF _ assms(2)])
  then show ?thesis by (simp only: those_map_Some)
qed

lemma read_session_prefix:
  assumes "read_session h s = Some sv" and "prefix h h'"
  shows "read_session h' s = Some sv"
proof -
  from assms(1) obtain sess es exs where
    a: "session_at h s = Some sess" and b: "list_at h (session_exercises sess) = Some es"
    and c: "those (map (exercise_at h) es) = Some exs"
    and d: "sv = \<lparr>sv_name = session_name sess, sv_exercises = exs\<rparr>"
    by (auto simp: read_session_def split: option.splits)
  have a': "session_at h' s = Some sess" using a assms(2) by (rule session_at_prefix)
  have b': "list_at h' (session_exercises sess) = Some es" using b assms(2) by (rule list_at_prefix)
  have c': "those (map (exercise_at h') es) = Some exs" using c assms(2) by (rule read_exercises_prefix)
  show ?thesis unfolding read_session_def by (simp add: a' b' c' d)
qed

lemma read_sessions_prefix:
  assumes "read_sessions h l = Some svs" and "prefix h h'"
  shows "read_sessions h' l = Some svs"
proof -
  from assms(1) obtain ss where a: "list_at h l = Some ss"
    and b: "those (map (read_session h) ss) = Some svs"
    by (auto simp: read_sessions_def split: option.splits)
  from b have "list_all2 (\<lambda>x y. read_session h x = Some y) ss svs"
    by (simp only: those_map_Some)
  then have "list_all2 (\<lambda>x y. read_session h' x = Some y) ss svs"
    by (rule list_all2_mono) (rule read_session_prefix [OF _ assms(2)])
  then have b': "those (map (read_session h') ss) = Some svs" by (simp only: those_map_Some)
  have a': "list_at h' l = Some ss" using a assms(2) by (rule list_at_prefix)
  show ?thesis unfolding read_sessions_def by (simp add: a' b')
qed

lemma read_template_prefix:
  assumes "read_template h t = Some svs" and "prefix h h'"
  shows "read_template h' t = Some svs"
proof -
  from assms(1) obtain T where a: "template_at h t = Some T"
    and b: "read_sessions h (template_sessions T) = Some svs"
    by (auto simp: read_template_def split: option.splits)
  have a': "template_at h' t = Some T" using a assms(2) by (rule template_at_prefix)
  have b': "read_sessions h' (template_sessions T) = Some svs" using b assms(2) by (rule read_sessions_prefix)
  show ?thesis unfolding read_template_def by (simp add: a' b')
qed


lemma alloc_prefix: "alloc h ob = (a, h') \<Longrightarrow> prefix h h'"
  by (auto simp: alloc_def)

lemma alloc_deref: "alloc h ob = (a, h') \<Longrightarrow> deref h' a = Some ob"
  by (auto simp: alloc_def deref_def)

subsection \<open>The templates as built\<close>

lemma alloc_exercises_reads:
  "alloc_exercises h exs = (es, h') \<Longrightarrow>
   prefix h h' \<and> those (map (exercise_at h') es) = Some (map initial_exercise exs)"
proof (induction exs arbitrary: h es h')
  case Nil
  then show ?case by simp
next
  case (Cons x exs)
  obtain name type muscle where x: "x = (name, type, muscle)" by (cases x)
  let ?ob = "ExerciseObj (initial_exercise x)"
  obtain es1 h2 where r: "alloc_exercises (h @ [?ob]) exs = (es1, h2)"
    by (cases "alloc_exercises (h @ [?ob]) exs")
  from Cons.prems x r have es: "es = length h # es1" and h': "h' = h2"
    by (simp_all add: alloc_def initial_exercise_def)
  from Cons.IH [OF r] have p: "prefix (h @ [?ob]) h2"
    and rd: "those (map (exercise_at h2) es1) = Some (map initial_exercise exs)" by simp_all
  have "exercise_at (h @ [?ob]) (length h) = Some (initial_exercise x)"
    by (simp add: exercise_at_def deref_def)
  then have "exercise_at h2 (length h) = Some (initial_exercise x)"
    using p by (rule exercise_at_prefix)
  moreover from p have "prefix h h2" by (rule append_prefixD)
  ultimately show ?case using rd es h' by simp
qed


lemma alloc_sessions_reads:
  "alloc_sessions h sessions = (ss, h') \<Longrightarrow>
   prefix h h' \<and> those (map (read_session h') ss) = Some (map initial_session sessions)"
proof (induction sessions arbitrary: h ss h')
  case Nil
  then show ?case by simp
next
  case (Cons x sessions)
  obtain name exs where x: "x = (name, exs)" by (cases x)
  obtain es h1 where e: "alloc_exercises h exs = (es, h1)" by (cases "alloc_exercises h exs")
  let ?h2 = "h1 @ [ListObj es]"
  let ?sess = "\<lparr>session_name = name, session_exercises = length h1\<rparr>"
  let ?h3 = "?h2 @ [SessionObj ?sess]"
  obtain ss1 h4 where r: "alloc_sessions ?h3 sessions = (ss1, h4)"
    by (cases "alloc_sessions ?h3 sessions")
  from Cons.prems x e r have ss: "ss = Suc (length h1) # ss1" and h': "h' = h4"
    by (simp_all add: alloc_def)
  from alloc_exercises_reads [OF e] have p1: "prefix h h1"
    and rd1: "those (map (exercise_at h1) es) = Some (map initial_exercise exs)" by simp_all
  from Cons.IH [OF r] have p4: "prefix ?h3 h4"
    and rd4: "those (map (read_session h4) ss1) = Some (map initial_session sessions)" by simp_all
  have p13: "prefix h1 ?h3" by simp
  have "those (map (exercise_at ?h3) es) = Some (map initial_exercise exs)"
    using rd1 p13 by (rule read_exercises_prefix)
  moreover have "session_at ?h3 (Suc (length h1)) = Some ?sess"
    by (simp add: session_at_def deref_def nth_append)
  moreover have "list_at ?h3 (length h1) = Some es"
    by (simp add: list_at_def deref_def nth_append)
  ultimately have "read_session ?h3 (Suc (length h1)) = Some (initial_session x)"
    by (simp add: read_session_def initial_session_def x)
  then have "read_session h4 (Suc (length h1)) = Some (initial_session x)"
    using p4 by (rule read_session_prefix)
  moreover have "prefix h h4"
    using p1 p13 p4 by (meson prefix_order.trans)
  ultimately show ?case using rd4 ss h' by simp
qed

lemma alloc_template_reads:
  assumes "alloc_template h name days sessions = (t, h')"
  obtains T ss where "prefix h h'" and "template_at h' t = Some T"
    and "list_at h' (template_sessions T) = Some ss"
    and "those (map (read_session h') ss) = Some (map initial_session sessions)"
proof -
  obtain ss h1 where a: "alloc_sessions h sessions = (ss, h1)" by (cases "alloc_sessions h sessions")
  let ?h2 = "h1 @ [ListObj ss]"
  let ?T = "\<lparr>template_name = name, days_per_week = days, template_sessions = length h1\<rparr>"
  from assms a have t: "t = Suc (length h1)" and h': "h' = ?h2 @ [TemplateObj ?T]"
    by (simp_all add: alloc_template_def alloc_def)
  from alloc_sessions_reads [OF a] have p1: "prefix h h1"
    and rd: "those (map (read_session h1) ss) = Some (map initial_session sessions)" by simp_all
  have p: "prefix h1 h'" by (simp add: h')
  from p1 p have pp: "prefix h h'" by (rule prefix_order.trans)
  have ta: "template_at h' t = Some ?T"
    by (simp add: t h' template_at_def deref_def nth_append)
  have la: "list_at h' (template_sessions ?T) = Some ss"
    by (simp add: h' list_at_def deref_def nth_append)
  from rd have "list_all2 (\<lambda>x y. read_session h1 x = Some y) ss (map initial_session sessions)"
    by (simp only: those_map_Some)
  then have "list_all2 (\<lambda>x y. read_session h' x = Some y) ss (map initial_session sessions)"
    by (rule list_all2_mono) (rule read_session_prefix [OF _ p])
  then have "those (map (read_session h') ss) = Some (map initial_session sessions)"
    by (simp only: those_map_Some)
  with pp ta la show thesis by (rule that)
qed

lemma get_upper_lower_ppl_template_reads:
  assumes "get_upper_lower_ppl_template h = (t, h')"
  shows "prefix h h'"
    and "read_template h' t = Some (map initial_session (take 2 upper_lower_sessions @ ppl_sessions))"
proof -
  obtain ul h1 where a: "alloc_template h ''Upper/Lower'' 4 upper_lower_sessions = (ul, h1)"
    by (cases "alloc_template h ''Upper/Lower'' 4 upper_lower_sessions")
  obtain ppl h2 where b: "alloc_template h1 ''Push/Pull/Legs'' 6 ppl_sessions = (ppl, h2)"
    by (cases "alloc_template h1 ''Push/Pull/Legs'' 6 ppl_sessions")
  from a obtain T1 ss1 where p1: "prefix h h1" and t1: "template_at h1 ul = Some T1"
    and l1: "list_at h1 (template_sessions T1) = Some ss1"
    and r1: "those (map (read_session h1) ss1) = Some (map initial_session upper_lower_sessions)"
    by (rule alloc_template_reads)
  from b obtain T2 ss2 where p2: "prefix h1 h2" and t2: "template_at h2 ppl = Some T2"
    and l2: "list_at h2 (template_sessions T2) = Some ss2"
    and r2: "those (map (read_session h2) ss2) = Some (map initial_session ppl_sessions)"
    by (rule alloc_template_reads)
  have t1': "template_at h2 ul = Some T1" using t1 p2 by (rule template_at_prefix)
  have l1': "list_at h2 (template_sessions T1) = Some ss1" using l1 p2 by (rule list_at_prefix)
  have s1: "sessions_of h2 ul = Some ss1" by (simp add: sessions_of_def t1' l1')
  have s2: "sessions_of h2 ppl = Some ss2" by (simp add: sessions_of_def t2 l2)
  let ?l = "take 2 ss1 @ ss2"
  let ?h3 = "h2 @ [ListObj ?l]"
  let ?T = "\<lparr>template_name = ''Upper/Lower + PPL'', days_per_week = 5, template_sessions = length h2\<rparr>"
  from assms a b s1 s2 have t: "t = Suc (length h2)" and h': "h' = ?h3 @ [TemplateObj ?T]"
    by (simp_all add: get_upper_lower_ppl_template_def get_upper_lower_template_def
          get_ppl_template_def alloc_def get_or_def)
  have p3: "prefix h2 h'" by (simp add: h')
  have p13: "prefix h1 h'" using p2 p3 by (rule prefix_order.trans)
  from p1 p13 show "prefix h h'" by (rule prefix_order.trans)
  from r1 have "list_all2 (\<lambda>x y. read_session h1 x = Some y) ss1 (map initial_session upper_lower_sessions)"
    by (simp only: those_map_Some)
  then have "list_all2 (\<lambda>x y. read_session h' x = Some y) ss1 (map initial_session upper_lower_sessions)"
    by (rule list_all2_mono) (rule read_session_prefix [OF _ p13])
  then have u: "list_all2 (\<lambda>x y. read_session h' x = Some y) (take 2 ss1)
                  (take 2 (map initial_session upper_lower_sessions))"
    by (rule list_all2_takeI)
  from r2 have "list_all2 (\<lambda>x y. read_session h2 x = Some y) ss2 (map initial_session ppl_sessions)"
    by (simp only: those_map_Some)
  then have v: "list_all2 (\<lambda>x y. read_session h' x = Some y) ss2 (map initial_session ppl_sessions)"
    by (rule list_all2_mono) (rule read_session_prefix [OF _ p3])
  from u v have "list_all2 (\<lambda>x y. read_session h' x = Some y) ?l
                  (take 2 (map initial_session upper_lower_sessions) @ map initial_session ppl_sessions)"
    by (rule list_all2_appendI)
  then have "list_all2 (\<lambda>x y. read_session h' x = Some y) ?l
                  (map initial_session (take 2 upper_lower_sessions @ ppl_sessions))"
    by (simp only: map_append take_map)
  then have rd: "those (map (read_session h') ?l)
      = Some (map initial_session (take 2 upper_lower_sessions @ ppl_sessions))"
    by (simp only: those_map_Some)
  have ta: "template_at h' t = Some ?T"
    by (simp add: t h' template_at_def deref_def nth_append)
  have la: "list_at h' (template_sessions ?T) = Some ?l"
    by (simp add: h' list_at_def deref_def nth_append)
  from ta la rd show "read_template h' t
      = Some (map initial_session (take 2 upper_lower_sessions @ ppl_sessions))"
    by (simp add: read_template_def read_sessions_def)
qed

lemma read_template_alloc:
  assumes "alloc_template h name days sessions = (t, h')"
  shows "read_template h' t = Some (map initial_session sessions)"
proof -
  from assms obtain T ss where "template_at h' t = Some T"
    and "list_at h' (template_sessions T) = Some ss"
    and "those (map (read_session h') ss) = Some (map initial_session sessions)"
    by (rule alloc_template_reads)
  then show ?thesis by (simp add: read_template_def read_sessions_def)
qed

lemma prefix_alloc_template:
  assumes "alloc_template h name days sessions = (t, h')"
  shows "prefix h h'"
  using assms by (rule alloc_template_reads)

text \<open>The four templates a new generator holds, read out of its store.\<close>

lemma WorkoutGenerator_templates:
  "map fst (splits WorkoutGenerator) = [''full_body'', ''upper_lower'', ''ppl'', ''upper_lower_ppl'']"
  "stored_template WorkoutGenerator ''full_body'' = Some (map initial_session full_body_sessions)"
  "stored_template WorkoutGenerator ''upper_lower'' = Some (map initial_session upper_lower_sessions)"
  "stored_template WorkoutGenerator ''ppl'' = Some (map initial_session ppl_sessions)"
  "stored_template WorkoutGenerator ''upper_lower_ppl''
     = Some (map initial_session (take 2 upper_lower_sessions @ ppl_sessions))"
proof -
  obtain fb h1 where a: "alloc_template [] ''Full Body'' 3 full_body_sessions = (fb, h1)"
    by (cases "alloc_template [] ''Full Body'' 3 full_body_sessions")
  obtain ul h2 where b: "alloc_template h1 ''Upper/Lower'' 4 upper_lower_sessions = (ul, h2)"
    by (cases "alloc_template h1 ''Upper/Lower'' 4 upper_lower_sessions")
  obtain ppl h3 where c: "alloc_template h2 ''Push/Pull/Legs'' 6 ppl_sessions = (ppl, h3)"
    by (cases "alloc_template h2 ''Push/Pull/Legs'' 6 ppl_sessions")
  obtain hy h4 where d: "get_upper_lower_ppl_template h3 = (hy, h4)"
    by (cases "get_upper_lower_ppl_template h3")
  have g: "WorkoutGenerator = \<lparr>objects = h4,
          splits = [(''full_body'', fb), (''upper_lower'', ul), (''ppl'', ppl), (''upper_lower_ppl'', hy)]\<rparr>"
    by (simp add: WorkoutGenerator_def get_full_body_template_def get_upper_lower_template_def
          get_ppl_template_def a b c d)
  have p12: "prefix h1 h2" using b by (rule prefix_alloc_template)
  have p23: "prefix h2 h3" using c by (rule prefix_alloc_template)
  have p34: "prefix h3 h4" using d by (rule get_upper_lower_ppl_template_reads)
  have p24: "prefix h2 h4" using p23 p34 by (rule prefix_order.trans)
  have p14: "prefix h1 h4" using p12 p24 by (rule prefix_order.trans)
  have r1: "read_template h4 fb = Some (map initial_session full_body_sessions)"
    using read_template_alloc [OF a] p14 by (rule read_template_prefix)
  have r2: "read_template h4 ul = Some (map initial_session upper_lower_sessions)"
    using read_template_alloc [OF b] p24 by (rule read_template_prefix)
  have r3: "read_template h4 ppl = Some (map initial_session ppl_sessions)"
    using read_template_alloc [OF c] p34 by (rule read_template_prefix)
  have r4: "read_template h4 hy = Some (map initial_session (take 2 upper_lower_sessions @ ppl_sessions))"
    using d by (rule get_upper_lower_ppl_template_reads)
  show "map fst (splits WorkoutGenerator) = [''full_body'', ''upper_lower'', ''ppl'', ''upper_lower_ppl'']"
    by (simp add: g)
  show "stored_template WorkoutGenerator ''full_body'' = Some (map initial_session full_body_sessions)"
    by (simp add: g stored_template_def r1)
  show "stored_template WorkoutGenerator ''upper_lower'' = Some (map initial_session upper_lower_sessions)"
    by (simp add: g stored_template_def r2)
  show "stored_template WorkoutGenerator ''ppl'' = Some (map initial_session ppl_sessions)"
    by (simp add: g stored_template_def r3)
  show "stored_template WorkoutGenerator ''upper_lower_ppl''
     = Some (map initial_session (take 2 upper_lower_sessions @ ppl_sessions))"
    by (simp add: g stored_template_def r4)
qed


subsection \<open>Writes and what they leave alone\<close>

lemma exercise_at_SomeD: "exercise_at h e = Some x \<Longrightarrow> e < length h \<and> h ! e = ExerciseObj x"
  by (auto simp: exercise_at_def deref_def split: if_splits option.splits obj.splits)

lemma session_at_SomeD: "session_at h s = Some x \<Longrightarrow> s < length h \<and> h ! s = SessionObj x"
  by (auto simp: session_at_def deref_def split: if_splits option.splits obj.splits)

lemma list_at_SomeD: "list_at h l = Some x \<Longrightarrow> l < length h \<and> h ! l = ListObj x"
  by (auto simp: list_at_def deref_def split: if_splits option.splits obj.splits)

lemma write_exercise:
  assumes "exercise_at h e = Some x"
  shows "exercise_at (h[e := ExerciseObj y]) a = (if a = e then Some y else exercise_at h a)"
    and "session_at (h[e := ExerciseObj y]) a = session_at h a"
    and "list_at (h[e := ExerciseObj y]) a = list_at h a"
    and "template_at (h[e := ExerciseObj y]) a = template_at h a"
proof -
  from assms have e: "e < length h" and x: "h ! e = ExerciseObj x"
    by (simp_all add: exercise_at_SomeD)
  show "exercise_at (h[e := ExerciseObj y]) a = (if a = e then Some y else exercise_at h a)"
    using e by (simp add: exercise_at_def deref_def nth_list_update)
  show "session_at (h[e := ExerciseObj y]) a = session_at h a"
    using e x by (cases "a = e") (simp_all add: session_at_def deref_def)
  show "list_at (h[e := ExerciseObj y]) a = list_at h a"
    using e x by (cases "a = e") (simp_all add: list_at_def deref_def)
  show "template_at (h[e := ExerciseObj y]) a = template_at h a"
    using e x by (cases "a = e") (simp_all add: template_at_def deref_def)
qed

lemma write_exercise_same_frame:
  assumes "exercise_at h e = Some x" and "ex_type y = ex_type x"
  shows "same_frame h (h[e := ExerciseObj y])"
  unfolding same_frame_def using assms by (simp add: write_exercise [OF assms(1)])

lemma same_frame_refl: "same_frame h h"
  by (simp add: same_frame_def)

lemma same_frame_trans:
  assumes "same_frame h1 h2" and "same_frame h2 h3"
  shows "same_frame h1 h3"
proof -
  have "ex_type x3 = ex_type x1"
    if a: "exercise_at h1 a = Some x1" and c: "exercise_at h3 a = Some x3" for a x1 x3
  proof -
    from assms(1) a obtain x2 where b: "exercise_at h2 a = Some x2"
      by (cases "exercise_at h2 a") (auto simp: same_frame_def)
    from assms(1) a b have "ex_type x2 = ex_type x1" unfolding same_frame_def by blast
    moreover from assms(2) b c have "ex_type x3 = ex_type x2" unfolding same_frame_def by blast
    ultimately show ?thesis by simp
  qed
  with assms show ?thesis unfolding same_frame_def by auto
qed

lemma read_session_ok_iff:
  "(read_session h s \<noteq> None) =
     (\<exists>S es. session_at h s = Some S \<and> list_at h (session_exercises S) = Some es
        \<and> (\<forall>e\<in>set es. exercise_at h e \<noteq> None))"
proof -
  have "(those (map (exercise_at h) es) \<noteq> None) = (\<forall>e\<in>set es. exercise_at h e \<noteq> None)" for es
    by (simp add: those_map_None)
  then show ?thesis
    by (auto simp: read_session_def split: option.splits)
qed

lemma read_template_ok_iff:
  "(read_template h t \<noteq> None) =
     (\<exists>ss. sessions_of h t = Some ss \<and> (\<forall>s\<in>set ss. read_session h s \<noteq> None))"
proof -
  have "(those (map (read_session h) ss) \<noteq> None) = (\<forall>s\<in>set ss. read_session h s \<noteq> None)" for ss
    by (simp add: those_map_None)
  then show ?thesis
    by (auto simp: read_template_def read_sessions_def sessions_of_def split: option.splits)
qed

lemma same_frame_evolves:
  assumes "same_frame h h'"
  shows "evolves h h'"
proof -
  from assms have t: "\<And>a. template_at h' a = template_at h a"
    and l: "\<And>a. list_at h' a = list_at h a"
    and s: "\<And>a. session_at h' a = session_at h a"
    and e: "\<And>a. (exercise_at h' a = None) = (exercise_at h a = None)"
    by (simp_all add: same_frame_def)
  have "read_session h' s \<noteq> None" if "read_session h s \<noteq> None" for s
    using that unfolding read_session_ok_iff by (simp add: l s e)
  then show ?thesis unfolding evolves_def by (simp add: t l e)
qed

lemma evolves_refl: "evolves h h"
  by (simp add: evolves_def)

lemma evolves_trans: "evolves h1 h2 \<Longrightarrow> evolves h2 h3 \<Longrightarrow> evolves h1 h3"
  by (simp add: evolves_def)

lemma evolves_sessions_of:
  assumes "evolves h h'" and "sessions_of h t = Some ss"
  shows "sessions_of h' t = Some ss"
proof -
  from assms(2) obtain T where a: "template_at h t = Some T"
    and b: "list_at h (template_sessions T) = Some ss"
    by (auto simp: sessions_of_def split: option.splits)
  from assms(1) a have a': "template_at h' t = Some T" by (simp add: evolves_def)
  from assms(1) b have b': "list_at h' (template_sessions T) = Some ss" by (simp add: evolves_def)
  show ?thesis by (simp add: sessions_of_def a' b')
qed

lemma evolves_read_template:
  assumes "evolves h h'" and "read_template h t \<noteq> None"
  shows "read_template h' t \<noteq> None"
proof -
  from assms(2) obtain ss where a: "sessions_of h t = Some ss"
    and b: "\<forall>s\<in>set ss. read_session h s \<noteq> None"
    unfolding read_template_ok_iff by blast
  from assms(1) a have a': "sessions_of h' t = Some ss" by (rule evolves_sessions_of)
  from assms(1) b have b': "\<forall>s\<in>set ss. read_session h' s \<noteq> None" by (simp add: evolves_def)
  from a' b' show ?thesis unfolding read_template_ok_iff by blast
qed

lemma same_frame_exercises_of: "same_frame h h' \<Longrightarrow> exercises_of h' s = exercises_of h s"
  by (simp add: same_frame_def exercises_of_def split: option.splits)

lemma same_frame_sessions_of: "same_frame h h' \<Longrightarrow> sessions_of h' t = sessions_of h t"
  by (simp add: same_frame_def sessions_of_def split: option.splits)

subsection \<open>Loops\<close>

lemma for_each_total:
  assumes step: "\<And>x h. x \<in> set xs \<Longrightarrow> P x h \<Longrightarrow> \<exists>h'. body x h = Some h' \<and> R h h'"
    and stable: "\<And>x h h'. x \<in> set xs \<Longrightarrow> P x h \<Longrightarrow> R h h' \<Longrightarrow> P x h'"
    and refl: "\<And>h. R h h"
    and trans: "\<And>h1 h2 h3. R h1 h2 \<Longrightarrow> R h2 h3 \<Longrightarrow> R h1 h3"
    and init: "\<forall>x\<in>set xs. P x h"
  shows "\<exists>h'. for_each body xs h = Some h' \<and> R h h'"
  using step stable init
proof (induction xs arbitrary: h)
  case Nil
  show ?case by (simp add: refl)
next
  case (Cons x xs)
  from Cons.prems(1) [of x h] Cons.prems(3) obtain h1 where b: "body x h = Some h1" and r: "R h h1"
    by auto
  have "\<forall>y\<in>set xs. P y h1"
  proof
    fix y assume y: "y \<in> set xs"
    with Cons.prems(3) have "P y h" by simp
    with y show "P y h1" using r Cons.prems(2) [of y h h1] by simp
  qed
  then have "\<exists>h'. for_each body xs h1 = Some h' \<and> R h1 h'"
    using Cons.prems(1,2) by (intro Cons.IH) auto
  then obtain h' where "for_each body xs h1 = Some h'" and "R h1 h'" by blast
  with b r show ?case by (auto intro: trans)
qed

lemma for_each_rel:
  assumes "for_each body xs h = Some h'"
    and step: "\<And>x h h'. x \<in> set xs \<Longrightarrow> body x h = Some h' \<Longrightarrow> R h h'"
    and refl: "\<And>h. R h h"
    and trans: "\<And>h1 h2 h3. R h1 h2 \<Longrightarrow> R h2 h3 \<Longrightarrow> R h1 h3"
  shows "R h h'"
  using assms(1) step
proof (induction xs arbitrary: h)
  case Nil
  then show ?case by (simp add: refl)
next
  case (Cons x xs)
  from Cons.prems(1) obtain h1 where b: "body x h = Some h1" and f: "for_each body xs h1 = Some h'"
    by (auto split: option.splits)
  from b have "R h h1" using Cons.prems(2) [of x h h1] by simp
  moreover from f have "R h1 h'" using Cons.prems(2) by (intro Cons.IH) auto
  ultimately show ?case by (rule trans)
qed

lemma for_each_keeps:
  assumes "for_each body xs h = Some h'"
    and keep: "\<And>y h h'. y \<in> set xs \<Longrightarrow> body y h = Some h' \<Longrightarrow> Q h \<Longrightarrow> Q h'"
    and "Q h"
  shows "Q h'"
  using assms(1) keep assms(3)
proof (induction xs arbitrary: h)
  case Nil
  then show ?case by simp
next
  case (Cons x xs)
  from Cons.prems(1) obtain h1 where b: "body x h = Some h1" and f: "for_each body xs h1 = Some h'"
    by (auto split: option.splits)
  from b Cons.prems(3) have "Q h1" using Cons.prems(2) [of x h h1] by simp
  with f show ?case using Cons.prems(2) by (intro Cons.IH) auto
qed

lemma for_each_post:
  assumes "for_each body xs h = Some h'"
    and est: "\<And>x h h'. x \<in> set xs \<Longrightarrow> body x h = Some h' \<Longrightarrow> Q x h'"
    and keep: "\<And>x y h h'. y \<in> set xs \<Longrightarrow> body y h = Some h' \<Longrightarrow> Q x h \<Longrightarrow> Q x h'"
  shows "\<forall>x\<in>set xs. Q x h'"
  using assms(1) est keep
proof (induction xs arbitrary: h)
  case Nil
  then show ?case by simp
next
  case (Cons x xs)
  from Cons.prems(1) obtain h1 where b: "body x h = Some h1" and f: "for_each body xs h1 = Some h'"
    by (auto split: option.splits)
  from b have q: "Q x h1" using Cons.prems(2) [of x h h1] by simp
  have "Q x h'"
    using f _ q
  proof (rule for_each_keeps)
    fix y h h' assume "y \<in> set xs" "body y h = Some h'" "Q x h"
    then show "Q x h'" using Cons.prems(3) [of y h h' x] by simp
  qed
  moreover have "\<forall>y\<in>set xs. Q y h'"
  proof (rule Cons.IH [OF f])
    fix z h h' assume "z \<in> set xs" "body z h = Some h'"
    then show "Q z h'" using Cons.prems(2) [of z h h'] by simp
  next
    fix z y h h' assume "y \<in> set xs" "body y h = Some h'" "Q z h"
    then show "Q z h'" using Cons.prems(3) [of y h h' z] by simp
  qed
  ultimately show ?case by simp
qed


subsection \<open>Truncating a session\<close>

lemma truncate_session_Some:
  assumes "session_at h s = Some S" and "list_at h (session_exercises S) = Some es"
  shows "truncate_session s h
           = Some ((h @ [ListObj (take 5 es)])[s := SessionObj (S\<lparr>session_exercises := length h\<rparr>)])"
  using assms by (simp add: truncate_session_def alloc_def)

lemma truncate_session_SomeD:
  assumes "truncate_session s h = Some h'"
  obtains S es where "session_at h s = Some S" and "list_at h (session_exercises S) = Some es"
    and "h' = (h @ [ListObj (take 5 es)])[s := SessionObj (S\<lparr>session_exercises := length h\<rparr>)]"
  using assms by (auto simp: truncate_session_def alloc_def split: option.splits)

lemma truncate_views:
  assumes S: "session_at h s = Some S"
    and h'_def: "h' = (h @ [ListObj l])[s := SessionObj S']"
  shows "exercise_at h' a = exercise_at h a"
    and "template_at h' a = template_at h a"
    and "session_at h' a = (if a = s then Some S' else session_at h a)"
    and "list_at h' a = (if a = length h then Some l else list_at h a)"
proof -
  from S have s: "s < length h" and hs: "h ! s = SessionObj S" by (simp_all add: session_at_SomeD)
  have d: "deref h' a =
      (if a = s then Some (SessionObj S') else if a = length h then Some (ListObj l) else deref h a)"
    using s by (auto simp: h'_def deref_def nth_list_update nth_append)
  have ds: "deref h s = Some (SessionObj S)" using s hs by (simp add: deref_def)
  have dl: "deref h (length h) = None" by (simp add: deref_def)
  show "exercise_at h' a = exercise_at h a"
    using s by (simp add: exercise_at_def d ds dl)
  show "template_at h' a = template_at h a"
    using s by (simp add: template_at_def d ds dl)
  show "session_at h' a = (if a = s then Some S' else session_at h a)"
    using s by (simp add: session_at_def d ds dl)
  show "list_at h' a = (if a = length h then Some l else list_at h a)"
    using s by (simp add: list_at_def d ds dl)
qed

lemma truncate_session_evolves:
  assumes "truncate_session s h = Some h'"
  shows "evolves h h'"
proof -
  from assms obtain S es where S: "session_at h s = Some S"
    and es: "list_at h (session_exercises S) = Some es"
    and h': "h' = (h @ [ListObj (take 5 es)])[s := SessionObj (S\<lparr>session_exercises := length h\<rparr>)]"
    by (rule truncate_session_SomeD)
  note v = truncate_views [OF S h']
  have l: "list_at h' a = Some x" if "list_at h a = Some x" for a x
  proof -
    from that have "a < length h" by (simp add: list_at_SomeD)
    with that show ?thesis by (simp add: v)
  qed
  have r: "read_session h' a \<noteq> None" if "read_session h a \<noteq> None" for a
  proof -
    from that obtain Sa esa where a1: "session_at h a = Some Sa"
      and a2: "list_at h (session_exercises Sa) = Some esa"
      and a3: "\<forall>e\<in>set esa. exercise_at h e \<noteq> None"
      unfolding read_session_ok_iff by blast
    show ?thesis
    proof (cases "a = s")
      case True
      with a1 a2 S es have "esa = es" by simp
      with a3 have "\<forall>e\<in>set (take 5 es). exercise_at h' e \<noteq> None"
        by (auto simp: v dest: in_set_takeD)
      moreover have "session_at h' a = Some (S\<lparr>session_exercises := length h\<rparr>)"
        using True by (simp add: v)
      moreover have "list_at h' (length h) = Some (take 5 es)" by (simp add: v)
      ultimately show ?thesis unfolding read_session_ok_iff by simp
    next
      case False
      then have "session_at h' a = Some Sa" using a1 by (simp add: v)
      moreover have "list_at h' (session_exercises Sa) = Some esa" using a2 by (rule l)
      moreover have "\<forall>e\<in>set esa. exercise_at h' e \<noteq> None" using a3 by (simp add: v)
      ultimately show ?thesis unfolding read_session_ok_iff by blast
    qed
  qed
  show ?thesis unfolding evolves_def using l r by (simp add: v)
qed

lemma truncate_session_total:
  assumes "read_session h s \<noteq> None"
  shows "\<exists>h'. truncate_session s h = Some h' \<and> evolves h h'"
proof -
  from assms obtain S es where "session_at h s = Some S" "list_at h (session_exercises S) = Some es"
    unfolding read_session_ok_iff by blast
  then have "truncate_session s h
           = Some ((h @ [ListObj (take 5 es)])[s := SessionObj (S\<lparr>session_exercises := length h\<rparr>)])"
    by (rule truncate_session_Some)
  then show ?thesis by (simp add: truncate_session_evolves)
qed

subsection \<open>Writing into an exercise\<close>

lemma rename_exercise_same_frame:
  assumes "rename_exercise subs e h = Some h'"
  shows "same_frame h h'"
proof -
  from assms obtain x where x: "exercise_at h e = Some x"
    by (auto simp: rename_exercise_def split: option.splits)
  show ?thesis
  proof (cases "map_of subs (ex_name x)")
    case None
    with assms x have "h' = h" by (simp add: rename_exercise_def)
    then show ?thesis by (simp add: same_frame_refl)
  next
    case (Some n)
    with assms x have "h' = h[e := ExerciseObj (x\<lparr>ex_name := n\<rparr>)]" by (simp add: rename_exercise_def)
    then show ?thesis using write_exercise_same_frame [OF x, of "x\<lparr>ex_name := n\<rparr>"] by simp
  qed
qed

lemma rename_exercise_total:
  assumes "exercise_at h e \<noteq> None"
  shows "\<exists>h'. rename_exercise subs e h = Some h' \<and> same_frame h h'"
proof -
  from assms have "\<exists>h'. rename_exercise subs e h = Some h'"
    by (auto simp: rename_exercise_def split: option.splits)
  then show ?thesis by (auto intro: rename_exercise_same_frame)
qed

lemma set_scheme_same_frame:
  assumes "set_scheme sch e h = Some h'"
  shows "same_frame h h'"
proof -
  from assms obtain x where x: "exercise_at h e = Some x"
    by (auto simp: set_scheme_def split: option.splits)
  from assms x obtain y where "h' = h[e := ExerciseObj y]" and "ex_type y = ex_type x"
    by (auto simp: set_scheme_def split: if_splits)
  then show ?thesis using write_exercise_same_frame [OF x, of y] by simp
qed

lemma set_scheme_total:
  assumes "exercise_at h e \<noteq> None"
  shows "\<exists>h'. set_scheme sch e h = Some h' \<and> same_frame h h'"
proof -
  from assms have "\<exists>h'. set_scheme sch e h = Some h'"
    by (auto simp: set_scheme_def split: option.splits)
  then show ?thesis by (auto intro: set_scheme_same_frame)
qed

subsection \<open>The nested loops\<close>

lemma exercises_loop_same_frame:
  assumes "for_each body es h = Some h'"
    and "\<And>e h h'. body e h = Some h' \<Longrightarrow> same_frame h h'"
  shows "same_frame h h'"
  using assms(1) by (rule for_each_rel) (auto intro: assms(2) same_frame_refl same_frame_trans)

lemma for_each_exercise_same_frame:
  assumes "for_each_exercise body t h = Some h'"
    and b: "\<And>e h h'. body e h = Some h' \<Longrightarrow> same_frame h h'"
  shows "same_frame h h'"
proof -
  from assms(1) obtain ss where
    f: "for_each (\<lambda>session h. case exercises_of h session of None \<Rightarrow> None
                                | Some es \<Rightarrow> for_each body es h) ss h = Some h'"
    by (auto simp: for_each_exercise_def split: option.splits)
  from f show ?thesis
  proof (rule for_each_rel)
    fix s h h'
    assume "(case exercises_of h s of None \<Rightarrow> None | Some es \<Rightarrow> for_each body es h) = Some h'"
    then obtain es where "for_each body es h = Some h'" by (auto split: option.splits)
    then show "same_frame h h'" using b by (rule exercises_loop_same_frame)
  qed (auto intro: same_frame_refl same_frame_trans)
qed

lemma same_frame_read_session_ok:
  "same_frame h h' \<Longrightarrow> read_session h s \<noteq> None \<Longrightarrow> read_session h' s \<noteq> None"
  using same_frame_evolves [of h h'] by (simp add: evolves_def)

lemma for_each_exercise_total:
  assumes ok: "read_template h t \<noteq> None"
    and b: "\<And>e h. exercise_at h e \<noteq> None \<Longrightarrow> \<exists>h'. body e h = Some h' \<and> same_frame h h'"
  shows "\<exists>h'. for_each_exercise body t h = Some h' \<and> same_frame h h'"
proof -
  from ok obtain ss where ss: "sessions_of h t = Some ss"
    and all: "\<forall>s\<in>set ss. read_session h s \<noteq> None"
    unfolding read_template_ok_iff by blast
  let ?inner = "\<lambda>session h. case exercises_of h session of None \<Rightarrow> None
                                | Some es \<Rightarrow> for_each body es h"
  have "\<exists>h'. for_each ?inner ss h = Some h' \<and> same_frame h h'"
  proof (rule for_each_total [where P = "\<lambda>s h. read_session h s \<noteq> None"])
    fix s h assume "read_session h s \<noteq> None"
    then obtain S es where S: "session_at h s = Some S"
      and es: "list_at h (session_exercises S) = Some es"
      and e: "\<forall>e\<in>set es. exercise_at h e \<noteq> None"
      unfolding read_session_ok_iff by blast
    have "\<exists>h'. for_each body es h = Some h' \<and> same_frame h h'"
    proof (rule for_each_total [where P = "\<lambda>e h. exercise_at h e \<noteq> None"])
      fix e h assume "exercise_at h e \<noteq> None"
      then show "\<exists>h'. body e h = Some h' \<and> same_frame h h'" by (rule b)
    next
      fix e h h' assume "exercise_at h e \<noteq> None" "same_frame h h'"
      then show "exercise_at h' e \<noteq> None" by (simp add: same_frame_def)
    qed (use e in \<open>auto intro: same_frame_refl same_frame_trans\<close>)
    moreover from S es have "exercises_of h s = Some es" by (simp add: exercises_of_def)
    ultimately show "\<exists>h'. ?inner s h = Some h' \<and> same_frame h h'" by simp
  next
    fix s h h' assume "read_session h s \<noteq> None" "same_frame h h'"
    then show "read_session h' s \<noteq> None" by (simp add: same_frame_read_session_ok)
  qed (use all in \<open>auto intro: same_frame_refl same_frame_trans\<close>)
  with ss show ?thesis by (simp add: for_each_exercise_def)
qed


subsection \<open>The adjusting methods\<close>

lemma adjust_for_experience_result:
  assumes "adjust_for_experience h t level = Some (t', h')"
  shows "t' = t" and "evolves h h'"
proof -
  show "t' = t" using assms by (auto simp: adjust_for_experience_def split: if_splits option.splits)
  show "evolves h h'"
  proof (cases "level = ''beginner''")
    case False
    with assms show ?thesis by (simp add: adjust_for_experience_def evolves_refl)
  next
    case True
    with assms obtain ss where "for_each truncate_session ss h = Some h'"
      by (auto simp: adjust_for_experience_def split: option.splits)
    then show ?thesis
      by (rule for_each_rel) (auto intro: truncate_session_evolves evolves_refl evolves_trans)
  qed
qed

lemma adjust_for_experience_total:
  assumes "read_template h t \<noteq> None"
  shows "\<exists>h'. adjust_for_experience h t level = Some (t, h')"
proof (cases "level = ''beginner''")
  case False
  then show ?thesis by (simp add: adjust_for_experience_def)
next
  case True
  from assms obtain ss where ss: "sessions_of h t = Some ss"
    and all: "\<forall>s\<in>set ss. read_session h s \<noteq> None"
    unfolding read_template_ok_iff by blast
  have "\<exists>h'. for_each truncate_session ss h = Some h' \<and> evolves h h'"
  proof (rule for_each_total [where P = "\<lambda>s h. read_session h s \<noteq> None"])
    fix s h assume "read_session h s \<noteq> None"
    then show "\<exists>h'. truncate_session s h = Some h' \<and> evolves h h'" by (rule truncate_session_total)
  next
    fix s h h' assume "read_session h s \<noteq> None" "evolves h h'"
    then show "read_session h' s \<noteq> None" by (simp add: evolves_def)
  qed (use all in \<open>auto intro: evolves_refl evolves_trans\<close>)
  with True ss show ?thesis by (auto simp: adjust_for_experience_def)
qed

lemma adjust_for_equipment_result:
  assumes "adjust_for_equipment h t equipment = Some (t', h')"
  shows "t' = t" and "same_frame h h'"
proof -
  show "t' = t" using assms by (auto simp: adjust_for_equipment_def split: option.splits)
  show "same_frame h h'"
  proof (cases "map_of substitutions equipment")
    case None
    with assms show ?thesis by (simp add: adjust_for_equipment_def same_frame_refl)
  next
    case (Some subs)
    with assms have "for_each_exercise (rename_exercise subs) t h = Some h'"
      by (auto simp: adjust_for_equipment_def)
    then show ?thesis by (rule for_each_exercise_same_frame) (rule rename_exercise_same_frame)
  qed
qed

lemma adjust_for_equipment_total:
  assumes "read_template h t \<noteq> None"
  shows "\<exists>h'. adjust_for_equipment h t equipment = Some (t, h')"
proof (cases "map_of substitutions equipment")
  case None
  then show ?thesis by (simp add: adjust_for_equipment_def)
next
  case (Some subs)
  have "\<exists>h'. for_each_exercise (rename_exercise subs) t h = Some h' \<and> same_frame h h'"
    using assms by (rule for_each_exercise_total) (rule rename_exercise_total)
  with Some show ?thesis by (auto simp: adjust_for_equipment_def)
qed

lemma limitation_step_same_frame:
  assumes "(case map_of limitation_subs limitation of
              Some subs \<Rightarrow> for_each_exercise (rename_exercise subs) t h
            | None \<Rightarrow> Some h) = Some h'"
  shows "same_frame h h'"
proof (cases "map_of limitation_subs limitation")
  case None
  with assms show ?thesis by (simp add: same_frame_refl)
next
  case (Some subs)
  with assms have "for_each_exercise (rename_exercise subs) t h = Some h'" by simp
  then show ?thesis by (rule for_each_exercise_same_frame) (rule rename_exercise_same_frame)
qed

lemma adjust_for_limitations_result:
  assumes "adjust_for_limitations h t limitations = Some (t', h')"
  shows "t' = t" and "same_frame h h'"
proof -
  show "t' = t" using assms by (auto simp: adjust_for_limitations_def)
  from assms have "for_each (\<lambda>limitation h. case map_of limitation_subs limitation of
                                    Some subs \<Rightarrow> for_each_exercise (rename_exercise subs) t h
                                  | None \<Rightarrow> Some h) limitations h = Some h'"
    by (auto simp: adjust_for_limitations_def)
  then show "same_frame h h'"
    by (rule for_each_rel) (auto intro: limitation_step_same_frame same_frame_refl same_frame_trans)
qed

lemma same_frame_read_template_ok:
  "same_frame h h' \<Longrightarrow> read_template h t \<noteq> None \<Longrightarrow> read_template h' t \<noteq> None"
  by (rule evolves_read_template [OF same_frame_evolves])

lemma adjust_for_limitations_total:
  assumes "read_template h t \<noteq> None"
  shows "\<exists>h'. adjust_for_limitations h t limitations = Some (t, h')"
proof -
  let ?step = "\<lambda>limitation h. case map_of limitation_subs limitation of
                                    Some subs \<Rightarrow> for_each_exercise (rename_exercise subs) t h
                                  | None \<Rightarrow> Some h"
  have "\<exists>h'. for_each ?step limitations h = Some h' \<and> same_frame h h'"
  proof (rule for_each_total [where P = "\<lambda>l h. read_template h t \<noteq> None"])
    fix l h assume ok: "read_template h t \<noteq> None"
    show "\<exists>h'. ?step l h = Some h' \<and> same_frame h h'"
    proof (cases "map_of limitation_subs l")
      case None
      then show ?thesis by (simp add: same_frame_refl)
    next
      case (Some subs)
      have "\<exists>h'. for_each_exercise (rename_exercise subs) t h = Some h' \<and> same_frame h h'"
        using ok by (rule for_each_exercise_total) (rule rename_exercise_total)
      with Some show ?thesis by simp
    qed
  next
    fix l h h' assume "read_template h t \<noteq> None" "same_frame h h'"
    then show "read_template h' t \<noteq> None" by (simp add: same_frame_read_template_ok)
  qed (use assms in \<open>auto intro: same_frame_refl same_frame_trans\<close>)
  then show ?thesis by (auto simp: adjust_for_limitations_def)
qed

lemma apply_rep_scheme_result:
  assumes "apply_rep_scheme h t sch = Some (t', h')"
  shows "t' = t" and "same_frame h h'"
proof -
  show "t' = t" using assms by (auto simp: apply_rep_scheme_def)
  from assms have "for_each_exercise (set_scheme sch) t h = Some h'"
    by (auto simp: apply_rep_scheme_def)
  then show "same_frame h h'" by (rule for_each_exercise_same_frame) (rule set_scheme_same_frame)
qed

lemma apply_rep_scheme_total:
  assumes "read_template h t \<noteq> None"
  shows "\<exists>h'. apply_rep_scheme h t sch = Some (t, h')"
proof -
  have "\<exists>h'. for_each_exercise (set_scheme sch) t h = Some h' \<and> same_frame h h'"
    using assms by (rule for_each_exercise_total) (rule set_scheme_total)
  then show ?thesis by (auto simp: apply_rep_scheme_def)
qed

subsection \<open>What the rep scheme leaves in the slots\<close>

lemma set_scheme_applies:
  assumes "set_scheme sch e h = Some h'"
  shows "\<exists>x. exercise_at h' e = Some x \<and> scheme_applied sch x"
proof -
  from assms obtain x where x: "exercise_at h e = Some x"
    by (auto simp: set_scheme_def split: option.splits)
  show ?thesis
  proof (cases "ex_type x = ''compound''")
    case True
    with assms x have "h' = h[e := ExerciseObj (x\<lparr>ex_sets := Some (rs_sets sch),
        ex_reps := Some (rs_reps sch), ex_rest := Some (rs_rest sch)\<rparr>)]"
      by (simp add: set_scheme_def)
    with True show ?thesis by (simp add: write_exercise [OF x] scheme_applied_def)
  next
    case False
    with assms x have "h' = h[e := ExerciseObj (x\<lparr>ex_sets := Some (rs_sets sch),
        ex_reps := Some ''10-15'', ex_rest := Some ''60 sec''\<rparr>)]"
      by (simp add: set_scheme_def)
    with False show ?thesis by (simp add: write_exercise [OF x] scheme_applied_def)
  qed
qed

lemma set_scheme_keeps:
  assumes "set_scheme sch y h = Some h'"
    and "\<exists>x. exercise_at h e = Some x \<and> scheme_applied sch x"
  shows "\<exists>x. exercise_at h' e = Some x \<and> scheme_applied sch x"
proof (cases "e = y")
  case True
  with assms(1) show ?thesis by (simp add: set_scheme_applies)
next
  case False
  from assms(1) obtain x0 where x0: "exercise_at h y = Some x0"
    by (auto simp: set_scheme_def split: option.splits)
  from assms(1) x0 obtain z where "h' = h[y := ExerciseObj z]"
    by (auto simp: set_scheme_def split: if_splits)
  with False have "exercise_at h' e = exercise_at h e" by (simp add: write_exercise [OF x0])
  with assms(2) show ?thesis by simp
qed

lemma list_all2_in_right:
  "list_all2 P xs ys \<Longrightarrow> y \<in> set ys \<Longrightarrow> \<exists>x\<in>set xs. P x y"
  by (induction rule: list_all2_induct) auto

lemma for_each_exercise_scheme:
  assumes run: "for_each_exercise (set_scheme sch) t h = Some h'"
    and rd: "read_template h' t = Some svs" and sv: "sv \<in> set svs" and x: "x \<in> set (sv_exercises sv)"
  shows "scheme_applied sch x"
proof -
  let ?Q = "\<lambda>e h. \<exists>x. exercise_at h e = Some x \<and> scheme_applied sch x"
  let ?Qs = "\<lambda>s h. \<exists>es. exercises_of h s = Some es \<and> (\<forall>e\<in>set es. ?Q e h)"
  let ?inner = "\<lambda>session h. case exercises_of h session of None \<Rightarrow> None
                                | Some es \<Rightarrow> for_each (set_scheme sch) es h"
  from run obtain ss where ss: "sessions_of h t = Some ss" and f: "for_each ?inner ss h = Some h'"
    by (auto simp: for_each_exercise_def split: option.splits)
  have frame: "same_frame h h'"
    using run by (rule for_each_exercise_same_frame) (rule set_scheme_same_frame)
  have inner_frame: "same_frame h1 h2" if "?inner s h1 = Some h2" for s h1 h2
  proof -
    from that obtain es where "for_each (set_scheme sch) es h1 = Some h2" by (auto split: option.splits)
    then show ?thesis by (rule exercises_loop_same_frame) (rule set_scheme_same_frame)
  qed
  have post: "\<forall>s\<in>set ss. ?Qs s h'"
    using f
  proof (rule for_each_post)
    fix s h1 h2 assume st: "?inner s h1 = Some h2"
    then obtain es where es: "exercises_of h1 s = Some es"
      and l: "for_each (set_scheme sch) es h1 = Some h2" by (auto split: option.splits)
    from l have "\<forall>e\<in>set es. ?Q e h2"
      by (rule for_each_post) (auto intro: set_scheme_applies set_scheme_keeps)
    moreover from inner_frame [OF st] es have "exercises_of h2 s = Some es"
      by (simp add: same_frame_exercises_of)
    ultimately show "?Qs s h2" by blast
  next
    fix s y h1 h2 assume st: "?inner y h1 = Some h2" and q: "?Qs s h1"
    from st obtain es' where l: "for_each (set_scheme sch) es' h1 = Some h2"
      by (auto split: option.splits)
    from q obtain es where es: "exercises_of h1 s = Some es" and a: "\<forall>e\<in>set es. ?Q e h1" by blast
    have "?Q e h2" if "e \<in> set es" for e
      using l
    proof (rule for_each_keeps)
      fix z k k' assume "set_scheme sch z k = Some k'" "?Q e k"
      then show "?Q e k'" by (rule set_scheme_keeps)
    next
      from a that show "?Q e h1" by simp
    qed
    moreover from inner_frame [OF st] es have "exercises_of h2 s = Some es"
      by (simp add: same_frame_exercises_of)
    ultimately show "?Qs s h2" by blast
  qed
  from frame ss have ss': "sessions_of h' t = Some ss" by (simp add: same_frame_sessions_of)
  from rd ss' have "those (map (read_session h') ss) = Some svs"
    by (auto simp: read_template_def read_sessions_def sessions_of_def split: option.splits)
  then have "list_all2 (\<lambda>s v. read_session h' s = Some v) ss svs" by (simp only: those_map_Some)
  with sv obtain s where s: "s \<in> set ss" and rs: "read_session h' s = Some sv"
    by (auto dest: list_all2_in_right)
  from rs obtain es where es: "exercises_of h' s = Some es"
    and xs: "those (map (exercise_at h') es) = Some (sv_exercises sv)"
    by (auto simp: read_session_def exercises_of_def split: option.splits)
  from xs have "list_all2 (\<lambda>e v. exercise_at h' e = Some v) es (sv_exercises sv)"
    by (simp only: those_map_Some)
  with x obtain e where e: "e \<in> set es" and xe: "exercise_at h' e = Some x"
    by (auto dest: list_all2_in_right)
  from post s es e have "?Q e h'" by auto
  with xe show ?thesis by simp
qed


subsection \<open>Generating a plan\<close>

lemma muscle_building_scheme:
  "map_of rep_schemes ''muscle_building''
     = Some \<lparr>rs_sets = 3, rs_reps = ''8-12'', rs_rest = ''60-90 sec''\<rparr>"
  by (simp add: rep_schemes_def)

lemma generate_plan_SomeD:
  assumes "generate_plan self split_type level goal equipment weeks limitations = Some (plan, self')"
  obtains fb t h1 h2 h3 h4 T where
    "map_of (splits self) ''full_body'' = Some fb"
    and "t = get_or (map_of (splits self) split_type) fb"
    and "adjust_for_experience (objects self) t level = Some (t, h1)"
    and "adjust_for_equipment h1 t equipment = Some (t, h2)"
    and "adjust_for_limitations h2 t (case limitations of None \<Rightarrow> [] | Some l \<Rightarrow> l) = Some (t, h3)"
    and "apply_rep_scheme h3 t (get_or (map_of rep_schemes goal)
           \<lparr>rs_sets = 3, rs_reps = ''8-12'', rs_rest = ''60-90 sec''\<rparr>) = Some (t, h4)"
    and "template_at h4 t = Some T"
    and "self' = self\<lparr>objects := h4\<rparr>"
    and "plan_weeks plan = map (\<lambda>week_num. \<lparr>week_number = week_num,
           week_sessions = template_sessions T, week_notes = get_week_notes week_num weeks\<rparr>) [1..weeks]"
proof -
  let ?lims = "case limitations of None \<Rightarrow> [] | Some l \<Rightarrow> l"
  let ?sch = "get_or (map_of rep_schemes goal) \<lparr>rs_sets = 3, rs_reps = ''8-12'', rs_rest = ''60-90 sec''\<rparr>"
  from assms obtain fb where fb: "map_of (splits self) ''full_body'' = Some fb"
    by (cases "map_of (splits self) ''full_body''") (simp_all add: generate_plan_def)
  define t where "t = get_or (map_of (splits self) split_type) fb"
  from assms fb obtain t1 h1 where a1: "adjust_for_experience (objects self) t level = Some (t1, h1)"
    by (cases "adjust_for_experience (objects self) t level")
      (auto simp: generate_plan_def Let_def t_def)
  from a1 have e1: "t1 = t" by (rule adjust_for_experience_result)
  from assms fb a1 e1 obtain t2 h2 where a2: "adjust_for_equipment h1 t equipment = Some (t2, h2)"
    by (cases "adjust_for_equipment h1 t equipment")
      (auto simp: generate_plan_def Let_def t_def)
  from a2 have e2: "t2 = t" by (rule adjust_for_equipment_result)
  from assms fb a1 e1 a2 e2 obtain t3 h3 where a3: "adjust_for_limitations h2 t ?lims = Some (t3, h3)"
    by (cases "adjust_for_limitations h2 t ?lims")
      (auto simp: generate_plan_def Let_def t_def)
  from a3 have e3: "t3 = t" by (rule adjust_for_limitations_result)
  from assms fb a1 e1 a2 e2 a3 e3 obtain t4 h4 where a4: "apply_rep_scheme h3 t ?sch = Some (t4, h4)"
    by (cases "apply_rep_scheme h3 t ?sch")
      (auto simp: generate_plan_def Let_def t_def muscle_building_scheme)
  from a4 have e4: "t4 = t" by (rule apply_rep_scheme_result)
  from assms fb a1 e1 a2 e2 a3 e3 a4 e4 obtain T where T: "template_at h4 t = Some T"
    by (cases "template_at h4 t")
      (auto simp: generate_plan_def Let_def t_def muscle_building_scheme)
  from assms fb a1 e1 a2 e2 a3 e3 a4 e4 T have
    "self' = self\<lparr>objects := h4\<rparr>"
    "plan_weeks plan = map (\<lambda>week_num. \<lparr>week_number = week_num,
           week_sessions = template_sessions T, week_notes = get_week_notes week_num weeks\<rparr>) [1..weeks]"
    by (auto simp: generate_plan_def Let_def t_def muscle_building_scheme)
  with fb t_def a1 a2 a3 a4 T e1 e2 e3 e4 show thesis by (intro that [of fb t h1 h2 h3 h4 T]) simp_all
qed

lemma generate_plan_Some:
  assumes "map_of (splits self) ''full_body'' = Some fb"
    and "adjust_for_experience (objects self) (get_or (map_of (splits self) split_type) fb) level
           = Some (t1, h1)"
    and "adjust_for_equipment h1 t1 equipment = Some (t2, h2)"
    and "adjust_for_limitations h2 t2 (case limitations of None \<Rightarrow> [] | Some l \<Rightarrow> l) = Some (t3, h3)"
    and "apply_rep_scheme h3 t3 (get_or (map_of rep_schemes goal)
           \<lparr>rs_sets = 3, rs_reps = ''8-12'', rs_rest = ''60-90 sec''\<rparr>) = Some (t4, h4)"
    and "template_at h4 t4 = Some T"
  shows "\<exists>plan self'. generate_plan self split_type level goal equipment weeks limitations
           = Some (plan, self')"
  using assms by (simp add: generate_plan_def Let_def muscle_building_scheme)

lemma generate_plan_evolves:
  assumes "generate_plan self split_type level goal equipment weeks limitations = Some (plan, self')"
  shows "evolves (objects self) (objects self')" and "splits self' = splits self"
proof -
  from assms obtain fb t h1 h2 h3 h4 T where
    a1: "adjust_for_experience (objects self) t level = Some (t, h1)"
    and a2: "adjust_for_equipment h1 t equipment = Some (t, h2)"
    and a3: "adjust_for_limitations h2 t (case limitations of None \<Rightarrow> [] | Some l \<Rightarrow> l) = Some (t, h3)"
    and a4: "apply_rep_scheme h3 t (get_or (map_of rep_schemes goal)
           \<lparr>rs_sets = 3, rs_reps = ''8-12'', rs_rest = ''60-90 sec''\<rparr>) = Some (t, h4)"
    and s: "self' = self\<lparr>objects := h4\<rparr>"
    by (rule generate_plan_SomeD)
  have "evolves (objects self) h1" using a1 by (rule adjust_for_experience_result)
  moreover have "evolves h1 h2" using a2 by (intro same_frame_evolves adjust_for_equipment_result)
  moreover have "evolves h2 h3" using a3 by (intro same_frame_evolves adjust_for_limitations_result)
  moreover have "evolves h3 h4" using a4 by (intro same_frame_evolves apply_rep_scheme_result)
  ultimately have "evolves (objects self) h4" by (meson evolves_trans)
  with s show "evolves (objects self) (objects self')" by simp
  from s show "splits self' = splits self" by simp
qed

lemma generate_plan_same_frame:
  assumes "generate_plan self split_type level goal equipment weeks limitations = Some (plan, self')"
    and "level \<noteq> ''beginner''"
  shows "same_frame (objects self) (objects self')"
proof -
  from assms(1) obtain fb t h1 h2 h3 h4 T where
    a1: "adjust_for_experience (objects self) t level = Some (t, h1)"
    and a2: "adjust_for_equipment h1 t equipment = Some (t, h2)"
    and a3: "adjust_for_limitations h2 t (case limitations of None \<Rightarrow> [] | Some l \<Rightarrow> l) = Some (t, h3)"
    and a4: "apply_rep_scheme h3 t (get_or (map_of rep_schemes goal)
           \<lparr>rs_sets = 3, rs_reps = ''8-12'', rs_rest = ''60-90 sec''\<rparr>) = Some (t, h4)"
    and s: "self' = self\<lparr>objects := h4\<rparr>"
    by (rule generate_plan_SomeD)
  from a1 assms(2) have "h1 = objects self" by (simp add: adjust_for_experience_def)
  moreover have "same_frame h1 h2" using a2 by (rule adjust_for_equipment_result)
  moreover have "same_frame h2 h3" using a3 by (rule adjust_for_limitations_result)
  moreover have "same_frame h3 h4" using a4 by (rule apply_rep_scheme_result)
  ultimately have "same_frame (objects self) h4" by (meson same_frame_trans)
  with s show ?thesis by simp
qed

lemma wf_generator_template:
  assumes "wf_generator self"
  obtains fb where "map_of (splits self) ''full_body'' = Some fb"
    and "read_template (objects self) (get_or (map_of (splits self) split_type) fb) \<noteq> None"
proof -
  from assms have a: "stored_template self ''full_body'' \<noteq> None"
    and b: "\<forall>name\<in>set (map fst (splits self)). stored_template self name \<noteq> None"
    by (simp_all add: wf_generator_def list_all_iff)
  from a obtain fb where fb: "map_of (splits self) ''full_body'' = Some fb"
    and rfb: "read_template (objects self) fb \<noteq> None"
    by (auto simp: stored_template_def split: option.splits)
  have "read_template (objects self) (get_or (map_of (splits self) split_type) fb) \<noteq> None"
  proof (cases "map_of (splits self) split_type")
    case None
    with rfb show ?thesis by (simp add: get_or_def)
  next
    case (Some t)
    then have "split_type \<in> set (map fst (splits self))"
      by (force dest: map_of_SomeD)
    with b have "stored_template self split_type \<noteq> None" by blast
    with Some show ?thesis by (simp add: stored_template_def get_or_def)
  qed
  with fb show thesis by (rule that)
qed

text \<open>
  On a generator whose every split can be read out of the store, \<open>generate_plan\<close>
  returns a plan, and the generator it leaves behind is again of that kind.
\<close>

lemma generate_plan_total:
  assumes "wf_generator self"
  shows "\<exists>plan self'. generate_plan self split_type level goal equipment weeks limitations
           = Some (plan, self')"
proof -
  from assms obtain fb where fb: "map_of (splits self) ''full_body'' = Some fb"
    and r0: "read_template (objects self) (get_or (map_of (splits self) split_type) fb) \<noteq> None"
    by (rule wf_generator_template)
  let ?t = "get_or (map_of (splits self) split_type) fb"
  let ?lims = "case limitations of None \<Rightarrow> [] | Some l \<Rightarrow> l"
  let ?sch = "get_or (map_of rep_schemes goal) \<lparr>rs_sets = 3, rs_reps = ''8-12'', rs_rest = ''60-90 sec''\<rparr>"
  from r0 obtain h1 where a1: "adjust_for_experience (objects self) ?t level = Some (?t, h1)"
    using adjust_for_experience_total by blast
  from a1 have "evolves (objects self) h1" by (rule adjust_for_experience_result)
  then have r1: "read_template h1 ?t \<noteq> None" using r0 by (rule evolves_read_template)
  from r1 obtain h2 where a2: "adjust_for_equipment h1 ?t equipment = Some (?t, h2)"
    using adjust_for_equipment_total by blast
  from a2 have "same_frame h1 h2" by (rule adjust_for_equipment_result)
  then have r2: "read_template h2 ?t \<noteq> None" using r1 by (rule same_frame_read_template_ok)
  from r2 obtain h3 where a3: "adjust_for_limitations h2 ?t ?lims = Some (?t, h3)"
    using adjust_for_limitations_total by blast
  from a3 have "same_frame h2 h3" by (rule adjust_for_limitations_result)
  then have r3: "read_template h3 ?t \<noteq> None" using r2 by (rule same_frame_read_template_ok)
  from r3 obtain h4 where a4: "apply_rep_scheme h3 ?t ?sch = Some (?t, h4)"
    using apply_rep_scheme_total by blast
  from a4 have "same_frame h3 h4" by (rule apply_rep_scheme_result)
  then have "read_template h4 ?t \<noteq> None" using r3 by (rule same_frame_read_template_ok)
  then obtain T where T: "template_at h4 ?t = Some T"
    by (auto simp: read_template_def split: option.splits)
  from fb a1 a2 a3 a4 T show ?thesis by (rule generate_plan_Some)
qed

lemma generate_plan_wf:
  assumes "generate_plan self split_type level goal equipment weeks limitations = Some (plan, self')"
    and "wf_generator self"
  shows "wf_generator self'"
proof -
  from assms(1) have ev: "evolves (objects self) (objects self')" and sp: "splits self' = splits self"
    by (rule generate_plan_evolves)+
  have "stored_template self' name \<noteq> None" if "stored_template self name \<noteq> None" for name
  proof -
    from that obtain t where t: "map_of (splits self) name = Some t"
      and r: "read_template (objects self) t \<noteq> None"
      by (auto simp: stored_template_def split: option.splits)
    from ev r have "read_template (objects self') t \<noteq> None" by (rule evolves_read_template)
    with t sp show ?thesis by (simp add: stored_template_def)
  qed
  with assms(2) sp show ?thesis by (simp add: wf_generator_def list_all_iff)
qed

lemma wf_WorkoutGenerator: "wf_generator WorkoutGenerator"
  by (simp add: wf_generator_def WorkoutGenerator_templates)


lemma list_all2_common_left:
  assumes "list_all2 P zs xs" and "list_all2 Q zs ys"
    and r: "\<And>z x y. P z x \<Longrightarrow> Q z y \<Longrightarrow> R x y"
  shows "list_all2 R xs ys"
  using assms(1,2)
proof (induction zs arbitrary: xs ys)
  case Nil
  then show ?case by simp
next
  case (Cons z zs)
  from Cons.prems obtain x xs' y ys' where "xs = x # xs'" "ys = y # ys'" "P z x" "Q z y"
    "list_all2 P zs xs'" "list_all2 Q zs ys'"
    by (auto simp: list_all2_Cons1)
  with Cons.IH show ?case by (simp add: r)
qed

lemma same_frame_read_session_shape:
  assumes "same_frame h h'" and "read_session h s = Some v" and "read_session h' s = Some v'"
  shows "list_all2 (\<lambda>x x'. ex_type x' = ex_type x) (sv_exercises v) (sv_exercises v')"
proof -
  from assms(2) obtain es where es: "exercises_of h s = Some es"
    and a: "those (map (exercise_at h) es) = Some (sv_exercises v)"
    by (auto simp: read_session_def exercises_of_def split: option.splits)
  from assms(1) es have "exercises_of h' s = Some es" by (simp add: same_frame_exercises_of)
  with assms(3) have b: "those (map (exercise_at h') es) = Some (sv_exercises v')"
    by (auto simp: read_session_def exercises_of_def split: option.splits)
  from a have a': "list_all2 (\<lambda>e x. exercise_at h e = Some x) es (sv_exercises v)"
    by (simp only: those_map_Some)
  from b have b': "list_all2 (\<lambda>e x. exercise_at h' e = Some x) es (sv_exercises v')"
    by (simp only: those_map_Some)
  from assms(1) have ty: "\<And>a x x'. exercise_at h a = Some x \<Longrightarrow> exercise_at h' a = Some x'
      \<Longrightarrow> ex_type x' = ex_type x"
    unfolding same_frame_def by blast
  from a' b' show ?thesis
    by (rule list_all2_common_left) (rule ty)
qed

lemma same_frame_read_template_shape:
  assumes "same_frame h h'" and "read_template h t = Some svs" and "read_template h' t = Some svs'"
  shows "list_all2 (\<lambda>v v'. list_all2 (\<lambda>x x'. ex_type x' = ex_type x) (sv_exercises v) (sv_exercises v'))
           svs svs'"
proof -
  from assms(2) obtain ss where ss: "sessions_of h t = Some ss"
    and a: "those (map (read_session h) ss) = Some svs"
    by (auto simp: read_template_def read_sessions_def sessions_of_def split: option.splits)
  from assms(1) ss have "sessions_of h' t = Some ss" by (simp add: same_frame_sessions_of)
  with assms(3) have b: "those (map (read_session h') ss) = Some svs'"
    by (auto simp: read_template_def read_sessions_def sessions_of_def split: option.splits)
  from a have a': "list_all2 (\<lambda>s v. read_session h s = Some v) ss svs" by (simp only: those_map_Some)
  from b have b': "list_all2 (\<lambda>s v. read_session h' s = Some v) ss svs'" by (simp only: those_map_Some)
  from a' b' show ?thesis
    by (rule list_all2_common_left) (rule same_frame_read_session_shape [OF assms(1)])
qed

lemma list_all2_first: "list_all2 P (a # as) ys \<Longrightarrow> \<exists>y\<in>set ys. P a y"
  by (auto simp: list_all2_Cons1)

lemma plan_week_sessions:
  assumes "generate_plan self split_type level goal equipment weeks limitations = Some (plan, self')"
    and "map_of (splits self) ''full_body'' = Some fb"
    and "template_at (objects self) (get_or (map_of (splits self) split_type) fb) = Some T"
  shows "map week_sessions (plan_weeks plan) = map (\<lambda>n. template_sessions T) [1..weeks]"
    and "stored_template self' split_type
           = read_template (objects self') (get_or (map_of (splits self) split_type) fb)
         \<or> map_of (splits self) split_type = None"
proof -
  from assms(1) obtain fb' t h4 T' where
    fb': "map_of (splits self) ''full_body'' = Some fb'"
    and t: "t = get_or (map_of (splits self) split_type) fb'"
    and T': "template_at h4 t = Some T'"
    and s: "self' = self\<lparr>objects := h4\<rparr>"
    and pw: "plan_weeks plan = map (\<lambda>week_num. \<lparr>week_number = week_num,
           week_sessions = template_sessions T', week_notes = get_week_notes week_num weeks\<rparr>) [1..weeks]"
    by (rule generate_plan_SomeD)
  from assms(1) have "evolves (objects self) (objects self')" by (rule generate_plan_evolves)
  then have "template_at (objects self') t = template_at (objects self) t" by (simp add: evolves_def)
  with assms(2,3) fb' t T' s have "T' = T" by simp
  then show "map week_sessions (plan_weeks plan) = map (\<lambda>n. template_sessions T) [1..weeks]"
    unfolding pw by (simp add: comp_def)
  show "stored_template self' split_type
           = read_template (objects self') (get_or (map_of (splits self) split_type) fb)
         \<or> map_of (splits self) split_type = None"
    using s by (cases "map_of (splits self) split_type") (simp_all add: stored_template_def get_or_def)
qed

subsection \<open>The rep scheme in a generated plan\<close>

text \<open>
  C4. In every plan that \<open>generate_plan\<close> returns, every exercise slot of every session
  of every week, read out of the store the call leaves, carries the set count of the scheme
  of the requested goal, where an unknown goal stands for the \<open>muscle_building\<close> scheme of
  3 sets, \<open>8-12\<close> reps and \<open>60-90 sec\<close> rest; a slot of type \<open>compound\<close> carries the reps
  and the rest of the scheme, and every other slot carries \<open>10-15\<close> reps and \<open>60 sec\<close>
  rest.
\<close>

theorem rep_scheme_in_plan:
  assumes "generate_plan self split_type level goal equipment weeks limitations = Some (plan, self')"
    and "w \<in> set (plan_weeks plan)"
    and "read_sessions (objects self') (week_sessions w) = Some svs"
    and "sv \<in> set svs" and "x \<in> set (sv_exercises sv)"
  shows "\<exists>sch. sch = get_or (map_of rep_schemes goal)
                       \<lparr>rs_sets = 3, rs_reps = ''8-12'', rs_rest = ''60-90 sec''\<rparr>
           \<and> ex_sets x = Some (rs_sets sch)
           \<and> (ex_type x = ''compound'' \<longrightarrow>
                 ex_reps x = Some (rs_reps sch) \<and> ex_rest x = Some (rs_rest sch))
           \<and> (ex_type x \<noteq> ''compound'' \<longrightarrow>
                 ex_reps x = Some ''10-15'' \<and> ex_rest x = Some ''60 sec'')"
proof -
  let ?sch = "get_or (map_of rep_schemes goal) \<lparr>rs_sets = 3, rs_reps = ''8-12'', rs_rest = ''60-90 sec''\<rparr>"
  from assms(1) obtain t h3 h4 T where
    a4: "apply_rep_scheme h3 t ?sch = Some (t, h4)"
    and T: "template_at h4 t = Some T"
    and s: "self' = self\<lparr>objects := h4\<rparr>"
    and pw: "plan_weeks plan = map (\<lambda>week_num. \<lparr>week_number = week_num,
           week_sessions = template_sessions T, week_notes = get_week_notes week_num weeks\<rparr>) [1..weeks]"
    by (rule generate_plan_SomeD)
  from assms(2) pw have "week_sessions w = template_sessions T" by auto
  with assms(3) s T have rd: "read_template h4 t = Some svs" by (simp add: read_template_def)
  from a4 have run: "for_each_exercise (set_scheme ?sch) t h3 = Some h4"
    by (auto simp: apply_rep_scheme_def)
  from run rd assms(4,5) have "scheme_applied ?sch x" by (rule for_each_exercise_scheme)
  then show ?thesis by (simp add: scheme_applied_def)
qed

theorem rep_scheme_in_plan_witness:
  "\<exists>plan self' w svs sv x.
     generate_plan WorkoutGenerator ''upper_lower'' ''intermediate'' ''toning'' ''full_gym'' 2 None
       = Some (plan, self')
     \<and> w \<in> set (plan_weeks plan)
     \<and> read_sessions (objects self') (week_sessions w) = Some svs
     \<and> sv \<in> set svs \<and> x \<in> set (sv_exercises sv)
     \<and> ex_type x = ''compound''
     \<and> ex_sets x = Some 3 \<and> ex_reps x = Some ''8-12'' \<and> ex_rest x = Some ''60-90 sec''"
proof -
  let ?S0 = "map initial_session upper_lower_sessions"
  obtain plan self' where c:
    "generate_plan WorkoutGenerator ''upper_lower'' ''intermediate'' ''toning'' ''full_gym'' 2 None
       = Some (plan, self')"
    using generate_plan_total [OF wf_WorkoutGenerator] by blast
  have s0: "stored_template WorkoutGenerator ''upper_lower'' = Some ?S0"
    by (rule WorkoutGenerator_templates)
  from c obtain fb t h4 T where
    fb: "map_of (splits WorkoutGenerator) ''full_body'' = Some fb"
    and t: "t = get_or (map_of (splits WorkoutGenerator) ''upper_lower'') fb"
    and T: "template_at h4 t = Some T"
    and s: "self' = WorkoutGenerator\<lparr>objects := h4\<rparr>"
    and pw: "plan_weeks plan = map (\<lambda>week_num. \<lparr>week_number = week_num,
           week_sessions = template_sessions T, week_notes = get_week_notes week_num 2\<rparr>) [1..2]"
    by (rule generate_plan_SomeD)
  from s0 t have r0: "read_template (objects WorkoutGenerator) t = Some ?S0"
    by (auto simp: stored_template_def get_or_def split: option.splits)
  have fr: "same_frame (objects WorkoutGenerator) (objects self')"
    using c by (rule generate_plan_same_frame) simp
  have "read_template (objects WorkoutGenerator) t \<noteq> None" by (simp only: r0) simp
  with fr have "read_template (objects self') t \<noteq> None" by (rule same_frame_read_template_ok)
  then obtain svs where r1: "read_template (objects self') t = Some svs" by blast
  from fr r0 r1 have sh: "list_all2 (\<lambda>v v'. list_all2 (\<lambda>x x'. ex_type x' = ex_type x)
      (sv_exercises v) (sv_exercises v')) ?S0 svs"
    by (rule same_frame_read_template_shape)
  have u: "[1..2::int] = [1, 2]" by code_simp
  define w where "w = \<lparr>week_number = 1, week_sessions = template_sessions T,
      week_notes = get_week_notes 1 2\<rparr>"
  have w: "w \<in> set (plan_weeks plan)" by (simp add: pw u w_def)
  from r1 s T have rs: "read_sessions (objects self') (week_sessions w) = Some svs"
    by (simp add: read_template_def w_def)
  obtain exs rest where ul: "upper_lower_sessions
      = (''Upper A'', (''Bench Press'', ''compound'', ''chest'') # exs) # rest"
    by (simp add: upper_lower_sessions_def)
  have S0eq: "?S0 = \<lparr>sv_name = ''Upper A'',
                 sv_exercises = initial_exercise (''Bench Press'', ''compound'', ''chest'')
                                  # map initial_exercise exs\<rparr> # map initial_session rest"
    by (simp add: ul initial_session_def)
  from sh [unfolded S0eq] have "\<exists>sv\<in>set svs. list_all2 (\<lambda>x x'. ex_type x' = ex_type x)
        (sv_exercises \<lparr>sv_name = ''Upper A'',
                 sv_exercises = initial_exercise (''Bench Press'', ''compound'', ''chest'')
                                  # map initial_exercise exs\<rparr>)
        (sv_exercises sv)"
    by (rule list_all2_first)
  then obtain sv where sv: "sv \<in> set svs"
    and sh1: "list_all2 (\<lambda>x x'. ex_type x' = ex_type x)
        (initial_exercise (''Bench Press'', ''compound'', ''chest'') # map initial_exercise exs)
        (sv_exercises sv)"
    by auto
  from sh1 have "\<exists>x\<in>set (sv_exercises sv).
      ex_type x = ex_type (initial_exercise (''Bench Press'', ''compound'', ''chest''))"
    by (rule list_all2_first)
  then obtain x where x: "x \<in> set (sv_exercises sv)"
    and "ex_type x = ex_type (initial_exercise (''Bench Press'', ''compound'', ''chest''))"
    by auto
  then have ty: "ex_type x = ''compound''" by (simp add: initial_exercise_def)
  note th = rep_scheme_in_plan [OF c w rs sv x]
  have d: "get_or (map_of rep_schemes ''toning'') \<lparr>rs_sets = 3, rs_reps = ''8-12'', rs_rest = ''60-90 sec''\<rparr>
      = \<lparr>rs_sets = 3, rs_reps = ''8-12'', rs_rest = ''60-90 sec''\<rparr>"
    by (simp add: rep_schemes_def get_or_def)
  from th ty have "ex_sets x = Some 3" and "ex_reps x = Some ''8-12''"
    and "ex_rest x = Some ''60-90 sec''"
    unfolding d by simp_all
  with c w rs sv x ty show ?thesis by (intro exI conjI) assumption+
qed

subsection \<open>The note of a week\<close>

text \<open>
  C8. The weeks of a generated plan are numbered 1 to \<open>weeks\<close> in order, and the note of
  a week is chosen by the first test that holds: the form message for week 1, otherwise the
  final-week message for the last week, otherwise the deload message for a week number
  divisible by 4, otherwise the progressive-overload message.
\<close>

theorem week_notes_in_plan:
  assumes "generate_plan self split_type level goal equipment weeks limitations = Some (plan, self')"
  shows "map week_number (plan_weeks plan) = [1..weeks]
         \<and> (\<forall>w\<in>set (plan_weeks plan).
               week_notes w =
                 (if week_number w = 1 then ''Focus on form. Use moderate weights to learn movements.''
                  else if week_number w = weeks
                    then ''Final week! Push hard but consider a deload after this.''
                  else if week_number w mod 4 = 0 then ''Deload week if needed. Reduce volume by 40%.''
                  else ''Progressive overload. Try to beat last week's numbers.''))"
proof -
  from assms obtain T :: template where
    pw: "plan_weeks plan = map (\<lambda>week_num. \<lparr>week_number = week_num,
           week_sessions = template_sessions T, week_notes = get_week_notes week_num weeks\<rparr>) [1..weeks]"
    by (rule generate_plan_SomeD)
  have "map week_number (plan_weeks plan) = [1..weeks]"
    unfolding pw by (simp add: comp_def)
  moreover have "week_notes w = get_week_notes (week_number w) weeks" if "w \<in> set (plan_weeks plan)" for w
    using that unfolding pw by auto
  ultimately show ?thesis by (simp add: get_week_notes_def)
qed

theorem week_notes_in_plan_witness:
  "\<exists>plan self'.
     generate_plan WorkoutGenerator ''full_body'' ''intermediate'' ''strength'' ''full_gym'' 8 None
       = Some (plan, self')
     \<and> map week_notes (plan_weeks plan) =
         [''Focus on form. Use moderate weights to learn movements.'',
          ''Progressive overload. Try to beat last week's numbers.'',
          ''Progressive overload. Try to beat last week's numbers.'',
          ''Deload week if needed. Reduce volume by 40%.'',
          ''Progressive overload. Try to beat last week's numbers.'',
          ''Progressive overload. Try to beat last week's numbers.'',
          ''Progressive overload. Try to beat last week's numbers.'',
          ''Final week! Push hard but consider a deload after this.'']"
proof -
  let ?f = "\<lambda>n::int. if n = 1 then ''Focus on form. Use moderate weights to learn movements.''
                  else if n = 8
                    then ''Final week! Push hard but consider a deload after this.''
                  else if n mod 4 = 0 then ''Deload week if needed. Reduce volume by 40%.''
                  else ''Progressive overload. Try to beat last week's numbers.''"
  obtain plan self' where c:
    "generate_plan WorkoutGenerator ''full_body'' ''intermediate'' ''strength'' ''full_gym'' 8 None
       = Some (plan, self')"
    using generate_plan_total [OF wf_WorkoutGenerator] by blast
  note t = week_notes_in_plan [OF c]
  from t have n: "map week_number (plan_weeks plan) = [1..8]" by (rule conjunct1)
  from t have "\<forall>w\<in>set (plan_weeks plan). week_notes w = ?f (week_number w)" by (rule conjunct2)
  then have "map week_notes (plan_weeks plan) = map (\<lambda>w. ?f (week_number w)) (plan_weeks plan)"
    by (intro map_cong) simp_all
  also have "\<dots> = map ?f (map week_number (plan_weeks plan))" by (simp add: comp_def)
  also have "\<dots> = map ?f [1..8]" by (simp only: n)
  also have "[1..8::int] = [1, 2, 3, 4, 5, 6, 7, 8]" by code_simp
  finally have "map week_notes (plan_weeks plan) = map ?f [1, 2, 3, 4, 5, 6, 7, 8]" .
  then have "map week_notes (plan_weeks plan) =
         [''Focus on form. Use moderate weights to learn movements.'',
          ''Progressive overload. Try to beat last week's numbers.'',
          ''Progressive overload. Try to beat last week's numbers.'',
          ''Deload week if needed. Reduce volume by 40%.'',
          ''Progressive overload. Try to beat last week's numbers.'',
          ''Progressive overload. Try to beat last week's numbers.'',
          ''Progressive overload. Try to beat last week's numbers.'',
          ''Final week! Push hard but consider a deload after this.'']"
    by simp
  with c show ?thesis by (intro exI conjI) assumption+
qed

subsection \<open>The stored template after a call\<close>

text \<open>
  C1. \<open>generate_plan\<close> takes the template out of \<open>self.splits\<close> by reference and every
  step writes into the objects it reaches; nothing is copied. On a new generator, the plainest
  call for the split \<open>full_body\<close> returns a plan and leaves a stored template that differs
  from the one the generator was built with (every slot now carries sets, reps and rest),
  and the weeks of that plan and of the plan of a second, identical call all hold the same
  reference: the list of sessions of the stored template.
\<close>

theorem generate_plan_mutates_template:
  "\<exists>p1 g1 p2 g2.
     generate_plan WorkoutGenerator ''full_body'' ''intermediate'' ''muscle_building'' ''full_gym'' 4 None
       = Some (p1, g1)
     \<and> generate_plan g1 ''full_body'' ''intermediate'' ''muscle_building'' ''full_gym'' 4 None
       = Some (p2, g2)
     \<and> stored_template WorkoutGenerator ''full_body'' = Some (map initial_session full_body_sessions)
     \<and> stored_template g1 ''full_body'' \<noteq> stored_template WorkoutGenerator ''full_body''
     \<and> plan_weeks p1 \<noteq> []
     \<and> map week_sessions (plan_weeks p1) = map week_sessions (plan_weeks p2)"
proof -
  let ?S0 = "map initial_session full_body_sessions"
  let ?sch = "get_or (map_of rep_schemes ''muscle_building'')
                \<lparr>rs_sets = 3, rs_reps = ''8-12'', rs_rest = ''60-90 sec''\<rparr>"
  have wf0: "wf_generator WorkoutGenerator" by (rule wf_WorkoutGenerator)
  have s0: "stored_template WorkoutGenerator ''full_body'' = Some ?S0"
    by (rule WorkoutGenerator_templates)
  from wf0 obtain p1 g1 where c1:
    "generate_plan WorkoutGenerator ''full_body'' ''intermediate'' ''muscle_building'' ''full_gym'' 4 None
       = Some (p1, g1)"
    using generate_plan_total by blast
  from c1 wf0 have wf1: "wf_generator g1" by (rule generate_plan_wf)
  from wf1 obtain p2 g2 where c2:
    "generate_plan g1 ''full_body'' ''intermediate'' ''muscle_building'' ''full_gym'' 4 None
       = Some (p2, g2)"
    using generate_plan_total by blast
  from s0 obtain fb T where fb: "map_of (splits WorkoutGenerator) ''full_body'' = Some fb"
    and T: "template_at (objects WorkoutGenerator) fb = Some T"
    by (auto simp: stored_template_def read_template_def split: option.splits)
  have g: "get_or (map_of (splits WorkoutGenerator) ''full_body'') fb = fb" by (simp add: fb get_or_def)
  from c1 have sp: "splits g1 = splits WorkoutGenerator" by (rule generate_plan_evolves)
  from c1 have ev: "evolves (objects WorkoutGenerator) (objects g1)" by (rule generate_plan_evolves)
  from ev T have T1: "template_at (objects g1) fb = Some T" by (simp add: evolves_def)
  have w1: "map week_sessions (plan_weeks p1) = map (\<lambda>n. template_sessions T) [1..4]"
    using c1 fb by (rule plan_week_sessions) (simp add: g T)
  have w2: "map week_sessions (plan_weeks p2) = map (\<lambda>n. template_sessions T) [1..4]"
    using c2 by (rule plan_week_sessions) (simp_all add: sp fb get_or_def T1)
  have ne: "plan_weeks p1 \<noteq> []"
  proof
    assume "plan_weeks p1 = []"
    with w1 have "[1..4::int] = []" by simp
    then show False by simp
  qed
  have diff: "stored_template g1 ''full_body'' \<noteq> Some ?S0"
  proof
    assume eq: "stored_template g1 ''full_body'' = Some ?S0"
    from c1 obtain fb' t h3 h4 where
      fb': "map_of (splits WorkoutGenerator) ''full_body'' = Some fb'"
      and t: "t = get_or (map_of (splits WorkoutGenerator) ''full_body'') fb'"
      and a4: "apply_rep_scheme h3 t ?sch = Some (t, h4)"
      and s: "g1 = WorkoutGenerator\<lparr>objects := h4\<rparr>"
      by (rule generate_plan_SomeD)
    from fb fb' t have tt: "t = fb" by (simp add: get_or_def)
    from eq s fb have rd: "read_template h4 fb = Some ?S0" by (simp add: stored_template_def)
    from a4 tt have run: "for_each_exercise (set_scheme ?sch) fb h3 = Some h4"
      by (auto simp: apply_rep_scheme_def)
    let ?sv = "initial_session (''Full Body A'',
        [(''Squat'', ''compound'', ''legs''),
         (''Bench Press'', ''compound'', ''chest''),
         (''Barbell Row'', ''compound'', ''back''),
         (''Overhead Press'', ''compound'', ''shoulders''),
         (''Plank'', ''core'', ''core'')])"
    let ?x = "initial_exercise (''Squat'', ''compound'', ''legs'')"
    have sv: "?sv \<in> set ?S0" by (simp add: full_body_sessions_def)
    have x: "?x \<in> set (sv_exercises ?sv)" by (simp add: initial_session_def)
    from run rd sv x have "scheme_applied ?sch ?x" by (rule for_each_exercise_scheme)
    then show False by (simp add: scheme_applied_def initial_exercise_def)
  qed
  from c1 c2 s0 diff ne w1 w2 show ?thesis by (intro exI [of _ p1] exI [of _ g1] exI [of _ p2] exI [of _ g2]) simp
qed

end
